theory Spec2Isabelle
  imports Complex_Main
begin

section \<open>The asset data read by the importer\<close>

text \<open>
  The importer (\<^verbatim>\<open>src/blender/asset.py\<close>) reads a UnityPy environment: typed objects,
  among them GameObjects and Transforms. A pointer (\<^verbatim>\<open>PPtr\<close>) is modelled by its path id;
  it is truthy exactly when the id is not 0, and an attribute that \<^verbatim>\<open>getattr(..., None)\<close>
  does not find is \<open>None\<close>.
\<close>

type_synonym path_id = int

datatype ClassIDType = GameObject | Transform | MonoBehaviour | AnimationClip | OtherClass

datatype py_error = KeyError | TypeError | AttributeError

type_synonym vec3 = "real \<times> real \<times> real"
type_synonym quat = "real \<times> real \<times> real \<times> real"

datatype BonePhysicsType = NoPhysics | SphereCollider | CapsuleCollider | SpringBone | SpringManager

record BoneAngularLimit =
  lim_min :: real
  lim_max :: real

record BonePhysics =
  ptype :: BonePhysicsType
  radius :: real
  height :: real
  pivot :: "string option"
  angularStiffness :: real
  yAngleLimits :: BoneAngularLimit
  zAngleLimits :: BoneAngularLimit

text \<open>
  The field dictionary of a script component (\<^verbatim>\<open>component.read_typetree()\<close>).
  \<open>pivotNode\<close> is \<open>Some p\<close> when the dictionary has the key \<^verbatim>\<open>pivotNode\<close>, with
  \<open>p\<close> the value of \<^verbatim>\<open>physics['pivotNode']['m_PathID']\<close>.
\<close>

record typetree =
  pivotNode :: "path_id option"
  tt_radius :: real
  tt_height :: real
  tt_angularStiffness :: real
  tt_yAngleLimits :: BoneAngularLimit
  tt_zAngleLimits :: BoneAngularLimit

text \<open>
  A component of a GameObject. \<open>m_Script\<close> is \<open>None\<close> for a null script pointer and
  \<open>Some n\<close> for a script whose \<^verbatim>\<open>name\<close> is \<open>n\<close>.
\<close>

record component =
  c_type :: ClassIDType
  m_Script :: "string option"
  read_typetree :: typetree

record game_object =
  m_Name :: string
  m_SkinnedMeshRenderer :: "path_id option"
  m_MeshRenderer :: "path_id option"
  m_Components :: "component list"

text \<open>
  A Transform with its children already read (\<^verbatim>\<open>child.read()\<close>): the input is a forest,
  so a node is a tree.
\<close>

datatype transform =
  TransformNode
    (path_id: path_id)
    (m_Father: path_id)
    (m_GameObject: game_object)
    (m_LocalPosition: vec3)
    (m_LocalRotation: quat)
    (m_LocalScale: vec3)
    (m_Children: "transform list")

datatype env_object =
  GameObjectObj game_object
| TransformObj transform
| OtherObj ClassIDType

definition truthy :: "path_id option \<Rightarrow> bool" where
  "truthy p = (case p of None \<Rightarrow> False | Some i \<Rightarrow> i \<noteq> 0)"

section \<open>Bones and armatures\<close>

text \<open>
  Bone objects are mutable and refer to each other (\<^verbatim>\<open>parent\<close>, \<^verbatim>\<open>children\<close>), so they
  live in a store: a list of bones in which the address of a bone is its index. A new
  bone is allocated at the end of the store. The tables of an armature hold addresses.
\<close>

record Bone =
  name :: string
  localPosition :: vec3
  localRotation :: quat
  localScale :: vec3
  parent :: "nat option"
  children :: "nat list"
  global_path :: string
  physics :: "BonePhysics option"

record Armature =
  arm_name :: string
  skinned_mesh_gameobject :: "game_object option"
  root :: "nat option"
  bone_path_hash_tbl :: "int \<rightharpoonup> nat"
  bone_name_tbl :: "string \<rightharpoonup> nat"
  bones :: "Bone list"

definition new_Armature :: "string \<Rightarrow> Armature" where
  "new_Armature n =
     \<lparr>arm_name = n, skinned_mesh_gameobject = None, root = None,
      bone_path_hash_tbl = Map.empty, bone_name_tbl = Map.empty, bones = []\<rparr>"

text \<open>
  Modelled from the spec: \<^verbatim>\<open>BonePhysics.from_dict\<close> is not in the source file; it
  "constructs a PhysicsDescriptor from the component's field dictionary".
\<close>

definition from_dict :: "typetree \<Rightarrow> BonePhysics" where
  "from_dict d =
     \<lparr>ptype = NoPhysics, radius = tt_radius d, height = tt_height d, pivot = None,
      angularStiffness = tt_angularStiffness d,
      yAngleLimits = tt_yAngleLimits d, zAngleLimits = tt_zAngleLimits d\<rparr>"

section \<open>search_env_meshes\<close>

text \<open>Lines 53 to 61: four independent tests of the script name, the last match wins.\<close>

definition phy_type_of :: "string \<Rightarrow> BonePhysicsType option" where
  "phy_type_of script_name =
     (let t0 = None;
          t1 = (if script_name = ''SpringSphereCollider'' then Some SphereCollider else t0);
          t2 = (if script_name = ''SpringCapsuleCollider'' then Some CapsuleCollider else t1);
          t3 = (if script_name = ''SekaiSpringBone'' then Some SpringBone else t2);
          t4 = (if script_name = ''SpringManager'' then Some SpringManager else t3)
      in t4)"

text \<open>
  Lines 46 to 66: the loop over the components of a GameObject. \<open>tbl\<close> is the local
  \<^verbatim>\<open>path_id_tbl\<close>, \<open>bs\<close> the store, \<open>acc\<close> the current value of \<^verbatim>\<open>bonePhysics\<close>.
  \<^verbatim>\<open>path_id_tbl[...]\<close> raises KeyError for an id that is not in the table.
\<close>

fun scan_components ::
  "(path_id \<rightharpoonup> nat) \<Rightarrow> Bone list \<Rightarrow> component list \<Rightarrow> BonePhysics option
     \<Rightarrow> py_error + BonePhysics option" where
  "scan_components tbl bs [] acc = Inr acc"
| "scan_components tbl bs (c # cs) acc =
     (if c_type c = MonoBehaviour then
        (case m_Script c of
           None \<Rightarrow> scan_components tbl bs cs acc
         | Some script_name \<Rightarrow>
             (let physics = read_typetree c in
              case phy_type_of script_name of
                None \<Rightarrow> scan_components tbl bs cs acc
              | Some phy_type \<Rightarrow>
                  (let bonePhysics = (from_dict physics)\<lparr>ptype := phy_type\<rparr> in
                   case pivotNode physics of
                     None \<Rightarrow> scan_components tbl bs cs (Some bonePhysics)
                   | Some pid \<Rightarrow>
                       (case tbl pid of
                          None \<Rightarrow> Inl KeyError
                        | Some b \<Rightarrow>
                            scan_components tbl bs cs
                              (Some (bonePhysics\<lparr>pivot := Some (name (bs ! b))\<rparr>))))))
      else scan_components tbl bs cs acc)"

text \<open>Lines 39 to 43: the path of a bone, from the parent bone (if any) and the name.\<close>

definition path_from_root_of :: "Bone list \<Rightarrow> nat option \<Rightarrow> string \<Rightarrow> string" where
  "path_from_root_of bs par n =
     (case par of
        None \<Rightarrow> ''''
      | Some p \<Rightarrow>
          (if global_path (bs ! p) \<noteq> '''' then global_path (bs ! p) @ ''/'' @ n else n))"

text \<open>Lines 81 to 84: the new bone \<open>i\<close> becomes the root, or the last child of its parent.\<close>

definition link_bone :: "nat option \<Rightarrow> nat \<Rightarrow> Armature \<Rightarrow> Armature" where
  "link_bone par i a =
     (case par of
        None \<Rightarrow> a\<lparr>root := Some i\<rparr>
      | Some p \<Rightarrow>
          a\<lparr>bones := (bones a)[p := (bones a ! p)\<lparr>children := children (bones a ! p) @ [i]\<rparr>]\<rparr>)"

text \<open>Lines 36 and 37: the armature remembers the last skinned GameObject visited.\<close>

definition mark_skinned :: "game_object \<Rightarrow> Armature \<Rightarrow> Armature" where
  "mark_skinned gameObject a =
     (if truthy (m_SkinnedMeshRenderer gameObject)
      then a\<lparr>skinned_mesh_gameobject := Some gameObject\<rparr> else a)"

text \<open>
  Lines 67 to 84: the Bone is created at the next free address \<open>i\<close>, registered in the
  three tables, and linked. \<open>hash\<close> stands for \<^verbatim>\<open>get_name_hash\<close>, which is not in
  the source file.
\<close>

definition add_bone ::
  "(string \<Rightarrow> int) \<Rightarrow> path_id \<Rightarrow> string \<Rightarrow> vec3 \<Rightarrow> quat \<Rightarrow> vec3 \<Rightarrow> nat option \<Rightarrow> string
     \<Rightarrow> BonePhysics option \<Rightarrow> Armature \<times> (path_id \<rightharpoonup> nat) \<Rightarrow> Armature \<times> (path_id \<rightharpoonup> nat)" where
  "add_bone hash pid n lpos lrot lscale par path_from_root bonePhysics s =
     (case s of (a, tbl) \<Rightarrow>
        (let i = length (bones a);
             bone = \<lparr>name = n, localPosition = lpos, localRotation = lrot,
                     localScale = lscale, parent = par, children = [],
                     global_path = path_from_root, physics = bonePhysics\<rparr>;
             a2 = a\<lparr>bones := bones a @ [bone],
                    bone_name_tbl := (bone_name_tbl a)(n \<mapsto> i),
                    bone_path_hash_tbl := (bone_path_hash_tbl a)(hash path_from_root \<mapsto> i)\<rparr>
         in (link_bone par i a2, tbl(pid \<mapsto> i))))"

text \<open>
  Lines 31 to 86: the nested function \<^verbatim>\<open>dfs\<close>. It mutates the armature and the local
  \<^verbatim>\<open>path_id_tbl\<close>, which are passed and returned here. A parent is always a bone
  allocated before, so \<open>bones a ! p\<close> is only read within range. The second function is
  the loop of lines 85 and 86 over the children, with \<open>i\<close> the address of their parent.
\<close>

fun dfs ::
  "(string \<Rightarrow> int) \<Rightarrow> transform \<Rightarrow> nat option \<Rightarrow> Armature \<times> (path_id \<rightharpoonup> nat)
     \<Rightarrow> py_error + Armature \<times> (path_id \<rightharpoonup> nat)"
and dfs_children ::
  "(string \<Rightarrow> int) \<Rightarrow> transform list \<Rightarrow> nat \<Rightarrow> Armature \<times> (path_id \<rightharpoonup> nat)
     \<Rightarrow> py_error + Armature \<times> (path_id \<rightharpoonup> nat)" where
  "dfs hash (TransformNode pid father gameObject lpos lrot lscale chs) par s =
     (case s of (a, tbl) \<Rightarrow>
        (let n = m_Name gameObject;
             a1 = mark_skinned gameObject a;
             path_from_root = path_from_root_of (bones a1) par n
         in case scan_components tbl (bones a1) (m_Components gameObject) None of
              Inl e \<Rightarrow> Inl e
            | Inr bonePhysics \<Rightarrow>
                dfs_children hash chs (length (bones a1))
                  (add_bone hash pid n lpos lrot lscale par path_from_root bonePhysics (a1, tbl))))"
| "dfs_children hash [] i s = Inr s"
| "dfs_children hash (c # cs) i s =
     (case dfs hash c (Some i) s of
        Inl e \<Rightarrow> Inl e
      | Inr s' \<Rightarrow> dfs_children hash cs i s')"

text \<open>Lines 16 to 22: static mesh GameObjects and root transforms, in the order of the objects.\<close>

fun static_mesh_gameobjects :: "env_object list \<Rightarrow> game_object list" where
  "static_mesh_gameobjects [] = []"
| "static_mesh_gameobjects (GameObjectObj d # os) =
     (if truthy (m_MeshRenderer d) then d # static_mesh_gameobjects os
      else static_mesh_gameobjects os)"
| "static_mesh_gameobjects (_ # os) = static_mesh_gameobjects os"

fun transform_roots :: "env_object list \<Rightarrow> transform list" where
  "transform_roots [] = []"
| "transform_roots (TransformObj d # os) =
     (if m_Father d = 0 then d # transform_roots os else transform_roots os)"
| "transform_roots (_ # os) = transform_roots os"

text \<open>Lines 27 to 30 and 87: one armature and one traversal per root.\<close>

definition build_armature :: "(string \<Rightarrow> int) \<Rightarrow> transform \<Rightarrow> py_error + Armature" where
  "build_armature hash r =
     (case dfs hash r None (new_Armature (m_Name (m_GameObject r)), Map.empty) of
        Inl e \<Rightarrow> Inl e
      | Inr (a, tbl) \<Rightarrow> Inr a)"

text \<open>Lines 25 to 89: the loop over the roots; an exception of a traversal ends the call.\<close>

fun collect_armatures ::
  "(string \<Rightarrow> int) \<Rightarrow> transform list \<Rightarrow> Armature list \<Rightarrow> py_error + Armature list" where
  "collect_armatures hash [] armatures = Inr armatures"
| "collect_armatures hash (r # rs) armatures =
     (case build_armature hash r of
        Inl e \<Rightarrow> Inl e
      | Inr a \<Rightarrow>
          collect_armatures hash rs
            (if skinned_mesh_gameobject a \<noteq> None then armatures @ [a] else armatures))"

definition search_env_meshes ::
  "(string \<Rightarrow> int) \<Rightarrow> env_object list \<Rightarrow> py_error + game_object list \<times> Armature list" where
  "search_env_meshes hash objects =
     (case collect_armatures hash (transform_roots objects) [] of
        Inl e \<Rightarrow> Inl e
      | Inr armatures \<Rightarrow> Inr (static_mesh_gameobjects objects, armatures))"

section \<open>Auxiliary notions for the traversal\<close>

text \<open>
  A store is well formed when only the bone at address 0 has no parent, every parent has a
  smaller address than its child, the child lists are exactly the inverse of the parent
  links and hold no bone twice, and every path is the one lines 39 to 43 compute from the
  parent's path.
\<close>

definition wf_store :: "Bone list \<Rightarrow> bool" where
  "wf_store bs \<longleftrightarrow>
     (\<forall>i<length bs. (case parent (bs ! i) of None \<Rightarrow> i = 0 | Some p \<Rightarrow> p < i)) \<and>
     (\<forall>i<length bs. \<forall>j. (j \<in> set (children (bs ! i))) = (j < length bs \<and> parent (bs ! j) = Some i)) \<and>
     (\<forall>i<length bs. distinct (children (bs ! i))) \<and>
     (\<forall>i<length bs. global_path (bs ! i) = path_from_root_of bs (parent (bs ! i)) (name (bs ! i)))"

text \<open>
  The record that line 67 creates.
\<close>

definition new_bone :: "string \<Rightarrow> vec3 \<Rightarrow> quat \<Rightarrow> vec3 \<Rightarrow> nat option \<Rightarrow> string \<Rightarrow> BonePhysics option \<Rightarrow> Bone" where
  "new_bone n lp lr ls par path bp = \<lparr>name = n, localPosition = lp, localRotation = lr, localScale = ls,
                   parent = par, children = [], global_path = path, physics = bp\<rparr>"

text \<open>
  The nodes of a subtree in the order in which \<open>dfs\<close> visits them.
\<close>

fun preorder :: "transform \<Rightarrow> transform list"
and preorder_list :: "transform list \<Rightarrow> transform list" where
  "preorder (TransformNode pid father g lp lr ls chs) =
     TransformNode pid father g lp lr ls chs # preorder_list chs"
| "preorder_list [] = []"
| "preorder_list (c # cs) = preorder c @ preorder_list cs"

text \<open>
  The dictionary obtained by assigning to the keys \<open>ks\<close>, in order, their positions: a key
  that occurs twice keeps the later position.
\<close>

definition index_tbl :: "'k list \<Rightarrow> ('k \<rightharpoonup> nat)" where
  "index_tbl ks = map_of (rev (zip ks [0..<length ks]))"

text \<open>
  The components for which the scan builds a descriptor, and the pivot ids that the scan
  of a component list looks up in \<^verbatim>\<open>path_id_tbl\<close>.
\<close>

definition recognized :: "component \<Rightarrow> bool" where
  "recognized c \<longleftrightarrow>
     c_type c = MonoBehaviour \<and>
     (case m_Script c of None \<Rightarrow> False | Some n \<Rightarrow> phy_type_of n \<noteq> None)"

definition pivot_refs :: "component list \<Rightarrow> path_id list" where
  "pivot_refs cs = List.map_filter (\<lambda>c. pivotNode (read_typetree c)) (filter recognized cs)"

text \<open>
  The state of a traversal after the nodes \<open>ns\<close> have been visited: the bones are those of
  \<open>ns\<close> in order, the three tables are the position tables of the path ids, the names and
  the path hashes, the descriptor of each bone is the result of the scan of its node with
  the table of the nodes before it, and the armature has a skinned GameObject exactly when
  one of the nodes has.
\<close>

definition trace_inv :: "(string \<Rightarrow> int) \<Rightarrow> transform list \<Rightarrow> Armature \<times> (path_id \<rightharpoonup> nat) \<Rightarrow> bool" where
  "trace_inv h ns s \<longleftrightarrow>
     (case s of (a, tbl) \<Rightarrow>
        map name (bones a) = map (\<lambda>t. m_Name (m_GameObject t)) ns \<and>
        tbl = index_tbl (map path_id ns) \<and>
        bone_name_tbl a = index_tbl (map name (bones a)) \<and>
        bone_path_hash_tbl a = index_tbl (map (\<lambda>b. h (global_path b)) (bones a)) \<and>
        (\<forall>k<length ns.
           scan_components (index_tbl (map path_id (take k ns))) (bones a)
             (m_Components (m_GameObject (ns ! k))) None = Inr (physics (bones a ! k))) \<and>
        ((skinned_mesh_gameobject a \<noteq> None) =
           (\<exists>t\<in>set ns. truthy (m_SkinnedMeshRenderer (m_GameObject t)))))"

text \<open>
  Every pivot id of a node is the path id of a node before it; \<open>seen\<close> are the path ids
  registered so far.
\<close>

fun refs_ok :: "path_id list \<Rightarrow> transform list \<Rightarrow> bool" where
  "refs_ok seen [] = True"
| "refs_ok seen (t # ts) =
     (set (pivot_refs (m_Components (m_GameObject t))) \<subseteq> set seen \<and>
      refs_ok (seen @ [path_id t]) ts)"

section \<open>A concrete forest: Position, Hips, Spine\<close>

text \<open>
  A node of the subtree has a skinned mesh renderer.
\<close>

definition has_skinned :: "transform \<Rightarrow> bool" where
  "has_skinned r = list_ex (\<lambda>t. truthy (m_SkinnedMeshRenderer (m_GameObject t))) (preorder r)"

definition plain_object :: "string \<Rightarrow> game_object" where
  "plain_object n =
     \<lparr>m_Name = n, m_SkinnedMeshRenderer = None, m_MeshRenderer = None, m_Components = []\<rparr>"

definition skinned_object :: "string \<Rightarrow> game_object" where
  "skinned_object n =
     \<lparr>m_Name = n, m_SkinnedMeshRenderer = Some 9, m_MeshRenderer = None, m_Components = []\<rparr>"

definition node :: "path_id \<Rightarrow> path_id \<Rightarrow> game_object \<Rightarrow> transform list \<Rightarrow> transform" where
  "node pid father g chs = TransformNode pid father g (0, 0, 0) (0, 0, 0, 1) (1, 1, 1) chs"

definition scenario_spine :: transform where
  "scenario_spine = node 3 2 (skinned_object ''Spine'') []"

definition scenario_hips :: transform where
  "scenario_hips = node 2 1 (plain_object ''Hips'') [scenario_spine]"

definition scenario_root :: transform where
  "scenario_root = node 1 0 (plain_object ''Position'') [scenario_hips]"

definition scenario_objects :: "env_object list" where
  "scenario_objects =
     [GameObjectObj (plain_object ''Position''), TransformObj scenario_root,
      TransformObj scenario_hips, TransformObj scenario_spine]"

definition scenario_hash :: "string \<Rightarrow> int" where
  "scenario_hash s = int (length s)"

definition plain_bone :: "string \<Rightarrow> nat option \<Rightarrow> nat list \<Rightarrow> string \<Rightarrow> Bone" where
  "plain_bone n par chs path =
     \<lparr>name = n, localPosition = (0, 0, 0), localRotation = (0, 0, 0, 1), localScale = (1, 1, 1),
      parent = par, children = chs, global_path = path, physics = None\<rparr>"

definition scenario_bones :: "Bone list" where
  "scenario_bones =
     [plain_bone ''Position'' None [1] '''',
      plain_bone ''Hips'' (Some 0) [2] ''Hips'',
      plain_bone ''Spine'' (Some 1) [] ''Hips/Spine'']"

definition scenario_armature :: "(string \<Rightarrow> int) \<Rightarrow> Armature" where
  "scenario_armature h =
     \<lparr>arm_name = ''Position'', skinned_mesh_gameobject = Some (skinned_object ''Spine''),
      root = Some 0,
      bone_path_hash_tbl = [h '''' \<mapsto> 0, h ''Hips'' \<mapsto> 1, h ''Hips/Spine'' \<mapsto> 2],
      bone_name_tbl = [''Position'' \<mapsto> 0, ''Hips'' \<mapsto> 1, ''Spine'' \<mapsto> 2],
      bones = scenario_bones\<rparr>"

definition stage_root :: transform where
  "stage_root = node 10 0 (plain_object ''Stage'') [node 11 10 (plain_object ''Floor'') []]"

definition two_root_objects :: "env_object list" where
  "two_root_objects = [TransformObj stage_root, TransformObj scenario_root]"

definition spring_fields :: "path_id option \<Rightarrow> typetree" where
  "spring_fields p =
     \<lparr>pivotNode = p, tt_radius = 2, tt_height = 0, tt_angularStiffness = 5,
      tt_yAngleLimits = \<lparr>lim_min = - 30, lim_max = 30\<rparr>,
      tt_zAngleLimits = \<lparr>lim_min = - 10, lim_max = 20\<rparr>\<rparr>"

definition script_component :: "string \<Rightarrow> typetree \<Rightarrow> component" where
  "script_component n tt = \<lparr>c_type = MonoBehaviour, m_Script = Some n, read_typetree = tt\<rparr>"

definition physics_object :: "string \<Rightarrow> component list \<Rightarrow> game_object" where
  "physics_object n cs =
     \<lparr>m_Name = n, m_SkinnedMeshRenderer = None, m_MeshRenderer = None, m_Components = cs\<rparr>"

definition hair_a :: transform where
  "hair_a = node 3 2 (physics_object ''Hair''
       [script_component ''Unknown'' (spring_fields None),
        script_component ''SekaiSpringBone'' (spring_fields (Some 2))]) []"

definition hair_b :: transform where
  "hair_b = node 4 2 (physics_object ''Hair''
       [script_component ''SekaiSpringBone'' (spring_fields (Some 3))]) []"

definition hair_position :: transform where
  "hair_position = node 2 1 (plain_object ''Position'') [hair_a, hair_b]"

definition hair_root :: transform where
  "hair_root = node 1 0 (skinned_object ''Model'') [hair_position]"

definition spring_physics :: "string \<Rightarrow> BonePhysics" where
  "spring_physics pv =
     \<lparr>ptype = SpringBone, radius = 2, height = 0, pivot = Some pv, angularStiffness = 5,
      yAngleLimits = \<lparr>lim_min = - 30, lim_max = 30\<rparr>,
      zAngleLimits = \<lparr>lim_min = - 10, lim_max = 20\<rparr>\<rparr>"

definition physics_bone :: "string \<Rightarrow> nat option \<Rightarrow> nat list \<Rightarrow> string \<Rightarrow> BonePhysics \<Rightarrow> Bone" where
  "physics_bone n par chs path bp = (plain_bone n par chs path)\<lparr>physics := Some bp\<rparr>"

definition hair_bones :: "Bone list" where
  "hair_bones =
     [plain_bone ''Model'' None [1] '''',
      plain_bone ''Position'' (Some 0) [2, 3] ''Position'',
      physics_bone ''Hair'' (Some 1) [] ''Position/Hair'' (spring_physics ''Position''),
      physics_bone ''Hair'' (Some 1) [] ''Position/Hair'' (spring_physics ''Hair'')]"

definition hair_armature :: "(string \<Rightarrow> int) \<Rightarrow> Armature" where
  "hair_armature h =
     \<lparr>arm_name = ''Model'', skinned_mesh_gameobject = Some (skinned_object ''Model''),
      root = Some 0,
      bone_path_hash_tbl = [h '''' \<mapsto> 0, h ''Position'' \<mapsto> 1, h ''Position/Hair'' \<mapsto> 3],
      bone_name_tbl = [''Model'' \<mapsto> 0, ''Position'' \<mapsto> 1, ''Hair'' \<mapsto> 3],
      bones = hair_bones\<rparr>"

definition forward_root :: transform where
  "forward_root = node 1 0 (skinned_object ''Model'')
     [node 2 1 (physics_object ''Hair''
         [script_component ''SekaiSpringBone'' (spring_fields (Some 3))]) [],
      node 3 1 (plain_object ''Pivot'') []]"

section \<open>The host scene\<close>

text \<open>
  \<open>import_armature_physics_constraints\<close> writes into the scene of the host (Blender). The
  scene is modelled as the list of its objects, in order of creation; the address of an
  object is its index. The armature object, which the function receives, is not in that
  list: an object refers to it with \<open>ArmatureRef\<close>. Names are stored as assigned: the host's
  renaming of duplicates and its limit on the length of a name are not modelled. The
  values that the host gives to the fields of a new object, a new rigid body and a new
  constraint are those of \<open>new_object\<close>, \<open>host_rigid_body\<close> and \<open>host_constraint\<close>; the
  function overwrites the ones it uses. Numbers are real numbers.
\<close>

datatype obj_ref = ArmatureRef | ObjectRef nat

datatype obj_data = UVSphere real | Cylinder real real | Empty

record rigid_body =
  rb_type :: string
  collision_shape :: string
  kinematic :: bool
  collision_collections0 :: bool

record rigid_body_constraint =
  ct_type :: string
  use_limit_lin_x :: bool
  use_limit_lin_y :: bool
  use_limit_lin_z :: bool
  limit_lin_x_lower :: real
  limit_lin_x_upper :: real
  limit_lin_y_lower :: real
  limit_lin_y_upper :: real
  limit_lin_z_lower :: real
  limit_lin_z_upper :: real
  use_limit_ang_x :: bool
  use_limit_ang_y :: bool
  use_limit_ang_z :: bool
  limit_ang_y_lower :: real
  limit_ang_y_upper :: real
  limit_ang_z_lower :: real
  limit_ang_z_upper :: real
  use_spring_ang_x :: bool
  use_spring_ang_y :: bool
  use_spring_ang_z :: bool
  spring_stiffness_y :: real
  spring_stiffness_z :: real
  object1 :: "obj_ref option"
  object2 :: "obj_ref option"

record scene_object =
  obj_name :: string
  obj_data :: obj_data
  obj_parent :: "obj_ref option"
  parent_bone :: string
  parent_type :: string
  rigid_body :: "rigid_body option"
  constraint :: "rigid_body_constraint option"
  empty_display_size :: real
  empty_display_type :: string
  matrix_world_bone :: "string option"

text \<open>
  The armature object: its name and the names of its pose bones. \<open>matrix_world_bone = Some b\<close>
  on an object says that its world matrix was set to that of the pose bone \<open>b\<close>
  (\<^verbatim>\<open>armature.matrix_world @ pbone.matrix\<close>).
\<close>

record blender_armature =
  ba_name :: string
  ba_pose_bones :: "string list"

record host =
  scene_objects :: "scene_object list"
  active :: "obj_ref option"
  mode :: string
  pose_constraints :: "(string \<times> string \<times> obj_ref) list"

datatype phys_flag = Collider | BoneFlag

text \<open>
  Modelled from the spec: the values of \<^verbatim>\<open>BonePhysicsType\<close> and its masks
  \<^verbatim>\<open>Collider\<close> and \<^verbatim>\<open>Bone\<close> are not in the source file. The spec tags sphere and
  capsule colliders as colliders and spring bones as bones; for the other types the two
  tests have no effect, whatever they return.
\<close>

definition type_has :: "BonePhysicsType \<Rightarrow> phys_flag \<Rightarrow> bool" where
  "type_has t f =
     (case f of
        Collider \<Rightarrow> t = SphereCollider \<or> t = CapsuleCollider
      | BoneFlag \<Rightarrow> t = SpringBone)"

definition radians :: "real \<Rightarrow> real" where
  "radians x = x * pi / 180"

definition new_object :: "string \<Rightarrow> obj_data \<Rightarrow> scene_object" where
  "new_object n d =
     \<lparr>obj_name = n, obj_data = d, obj_parent = None, parent_bone = '''',
      parent_type = ''OBJECT'', rigid_body = None, constraint = None,
      empty_display_size = 1, empty_display_type = ''PLAIN_AXES'', matrix_world_bone = None\<rparr>"

definition host_rigid_body :: rigid_body where
  "host_rigid_body =
     \<lparr>rb_type = ''ACTIVE'', collision_shape = ''CONVEX_HULL'', kinematic = False,
      collision_collections0 = True\<rparr>"

definition host_constraint :: "string \<Rightarrow> rigid_body_constraint" where
  "host_constraint t =
     \<lparr>ct_type = t,
      use_limit_lin_x = False, use_limit_lin_y = False, use_limit_lin_z = False,
      limit_lin_x_lower = - 1, limit_lin_x_upper = 1,
      limit_lin_y_lower = - 1, limit_lin_y_upper = 1,
      limit_lin_z_lower = - 1, limit_lin_z_upper = 1,
      use_limit_ang_x = False, use_limit_ang_y = False, use_limit_ang_z = False,
      limit_ang_y_lower = - (pi / 4), limit_ang_y_upper = pi / 4,
      limit_ang_z_lower = - (pi / 4), limit_ang_z_upper = pi / 4,
      use_spring_ang_x = False, use_spring_ang_y = False, use_spring_ang_z = False,
      spring_stiffness_y = 10, spring_stiffness_z = 10,
      object1 = None, object2 = None\<rparr>"

definition update_object :: "nat \<Rightarrow> (scene_object \<Rightarrow> scene_object) \<Rightarrow> host \<Rightarrow> host" where
  "update_object i f s = s\<lparr>scene_objects := (scene_objects s)[i := f (scene_objects s ! i)]\<rparr>"

definition update_rigid_body :: "nat \<Rightarrow> (rigid_body \<Rightarrow> rigid_body) \<Rightarrow> host \<Rightarrow> host" where
  "update_rigid_body i f s = update_object i (\<lambda>ob. ob\<lparr>rigid_body := map_option f (rigid_body ob)\<rparr>) s"

definition update_constraint ::
  "nat \<Rightarrow> (rigid_body_constraint \<Rightarrow> rigid_body_constraint) \<Rightarrow> host \<Rightarrow> host" where
  "update_constraint i f s = update_object i (\<lambda>ob. ob\<lparr>constraint := map_option f (constraint ob)\<rparr>) s"

text \<open>
  \<^verbatim>\<open>bpy.ops.mesh.primitive_..._add\<close> and \<^verbatim>\<open>bpy.data.objects.new\<close> followed by
  \<^verbatim>\<open>collection.objects.link\<close>: the new object gets the next address. A primitive becomes
  the active object, which is what \<^verbatim>\<open>bpy.context.object\<close> reads.
\<close>

definition primitive_add :: "string \<Rightarrow> obj_data \<Rightarrow> host \<Rightarrow> host" where
  "primitive_add n d s =
     s\<lparr>scene_objects := scene_objects s @ [new_object n d], active := Some (ObjectRef (length (scene_objects s)))\<rparr>"

definition objects_new_link :: "string \<Rightarrow> host \<Rightarrow> host" where
  "objects_new_link n s = s\<lparr>scene_objects := scene_objects s @ [new_object n Empty]\<rparr>"

text \<open>\<^verbatim>\<open>bpy.ops.rigidbody.object_add\<close> and \<^verbatim>\<open>constraint_add\<close> act on the active object.\<close>

definition rigidbody_object_add :: "host \<Rightarrow> host" where
  "rigidbody_object_add s =
     (case active s of
        Some (ObjectRef i) \<Rightarrow> update_object i (\<lambda>ob. ob\<lparr>rigid_body := Some host_rigid_body\<rparr>) s
      | _ \<Rightarrow> s)"

definition rigidbody_constraint_add :: "string \<Rightarrow> host \<Rightarrow> host" where
  "rigidbody_constraint_add t s =
     (case active s of
        Some (ObjectRef i) \<Rightarrow> update_object i (\<lambda>ob. ob\<lparr>constraint := Some (host_constraint t)\<rparr>) s
      | _ \<Rightarrow> s)"

text \<open>
  \<^verbatim>\<open>name in bpy.context.scene.objects\<close> and \<^verbatim>\<open>bpy.context.scene.objects[name]\<close>: the armature
  object is in the scene too. The lookup is only used after the membership test.
\<close>

definition in_scene :: "blender_armature \<Rightarrow> host \<Rightarrow> string \<Rightarrow> bool" where
  "in_scene armature s n \<longleftrightarrow> n = ba_name armature \<or> n \<in> set (map obj_name (scene_objects s))"

fun find_index_of :: "string \<Rightarrow> scene_object list \<Rightarrow> nat \<Rightarrow> nat option" where
  "find_index_of n [] i = None"
| "find_index_of n (ob # obs) i = (if obj_name ob = n then Some i else find_index_of n obs (Suc i))"

definition scene_lookup :: "blender_armature \<Rightarrow> host \<Rightarrow> string \<Rightarrow> obj_ref" where
  "scene_lookup armature s n =
     (case find_index_of n (scene_objects s) 0 of
        Some i \<Rightarrow> ObjectRef i
      | None \<Rightarrow> ArmatureRef)"

section \<open>import_armature_physics_constraints\<close>

text \<open>
  Modelled from the spec: the methods \<^verbatim>\<open>Bone.dfs_generator\<close> and
  \<^verbatim>\<open>Bone.recursive_locate_by_name\<close> are not in the source file. The generator visits a
  bone and then the subtrees of its children, in order ("for every descendant bone");
  the locator returns the first bone with the given name in that order. In a store built
  by \<open>dfs\<close> the children of a bone have larger addresses within the store; other child
  addresses do not occur and are skipped, which makes the recursion terminate.
\<close>

function dfs_generator :: "Bone list \<Rightarrow> nat \<Rightarrow> nat list" where
  "dfs_generator bs i =
     i # concat (map (dfs_generator bs) (filter (\<lambda>c. i < c \<and> c < length bs) (children (bs ! i))))"
  by pat_completeness auto

termination
  by (relation "measure (\<lambda>(bs, i). length bs - i)") auto

declare dfs_generator.simps [simp del]

definition recursive_locate_by_name :: "Bone list \<Rightarrow> nat \<Rightarrow> string \<Rightarrow> nat option" where
  "recursive_locate_by_name bs i n = find (\<lambda>j. name (bs ! j) = n) (dfs_generator bs i)"

text \<open>
  \<^verbatim>\<open>target_rigid_bodies\<close> is a dictionary whose values are listed in order of insertion:
  an association list, in which an assignment to a key that is present replaces its value
  in place.
\<close>

definition dict_set :: "('k \<times> 'v) list \<Rightarrow> 'k \<Rightarrow> 'v \<Rightarrow> ('k \<times> 'v) list" where
  "dict_set d k v =
     (if k \<in> set (map fst d) then map (\<lambda>(k', v'). if k' = k then (k', v) else (k', v')) d
      else d @ [(k, v)])"

text \<open>Lines 276 to 280.\<close>

definition PIVOT_SIZE :: real where "PIVOT_SIZE = 4 / 1000"

definition SPHERE_RADIUS_FACTOR :: real where "SPHERE_RADIUS_FACTOR = 1 / 2"

definition CAPSULE_RADIUS_FACTOR :: real where "CAPSULE_RADIUS_FACTOR = 1"

definition CAPSULE_HEIGHT_FACTOR :: real where "CAPSULE_HEIGHT_FACTOR = 1"

definition SPRINGBONE_RADIUS_FACTOR :: real where "SPRINGBONE_RADIUS_FACTOR = 1 / 2"

text \<open>
  Lines 290 to 311: the collider of a bone. \<open>obj\<close> is the address of the new object, if
  one was made.
\<close>

definition add_collider :: "Bone \<Rightarrow> BonePhysics \<Rightarrow> host \<Rightarrow> host" where
  "add_collider child ph s =
     (let (s1, obj1) =
            (if ptype ph = SphereCollider then
               (let obj = length (scene_objects s);
                    t1 = primitive_add ''Sphere'' (UVSphere (radius ph * SPHERE_RADIUS_FACTOR)) s;
                    t2 = update_object obj (\<lambda>ob. ob\<lparr>obj_name := name child @ ''_rigidbody''\<rparr>) t1;
                    t3 = rigidbody_object_add t2;
                    t4 = update_rigid_body obj
                           (\<lambda>rb. rb\<lparr>rb_type := ''PASSIVE'', collision_shape := ''SPHERE''\<rparr>) t3
                in (t4, Some obj))
             else (s, None));
          (s2, obj2) =
            (if ptype ph = CapsuleCollider then
               (let obj = length (scene_objects s1);
                    t1 = primitive_add ''Cylinder''
                           (Cylinder (radius ph * CAPSULE_RADIUS_FACTOR)
                              (height ph * CAPSULE_HEIGHT_FACTOR)) s1;
                    t2 = update_object obj (\<lambda>ob. ob\<lparr>obj_name := name child @ ''_rigidbody''\<rparr>) t1;
                    t3 = rigidbody_object_add t2;
                    t4 = update_rigid_body obj
                           (\<lambda>rb. rb\<lparr>rb_type := ''PASSIVE'', collision_shape := ''CAPSULE''\<rparr>) t3
                in (t4, Some obj))
             else (s1, obj1))
      in case obj2 of
           None \<Rightarrow> s2
         | Some obj \<Rightarrow>
             update_object obj
               (\<lambda>ob. ob\<lparr>obj_parent := Some ArmatureRef, parent_bone := name child,
                        parent_type := ''BONE''\<rparr>)
               (update_rigid_body obj (\<lambda>rb. rb\<lparr>kinematic := True\<rparr>) s2))"

text \<open>
  Lines 314 and 315. The bone name of a pivot is \<^verbatim>\<open>child.physics.pivot\<close>, which is
  \<^verbatim>\<open>None\<close> when the descriptor had no pivot node; the format string prints it as
  \<^verbatim>\<open>None\<close>.
\<close>

definition get_rb_name :: "blender_armature \<Rightarrow> string option \<Rightarrow> bool \<Rightarrow> string" where
  "get_rb_name armature bone_name is_pivot =
     ba_name armature @ ''_'' @ (case bone_name of None \<Rightarrow> ''None'' | Some n \<Rightarrow> n) @ ''_'' @
       (if is_pivot then ''pivot'' else ''target'') @ ''_rigidbody''"

text \<open>
  Lines 316 to 343. The state is the scene with \<^verbatim>\<open>target_rigid_bodies\<close>. Assigning
  \<^verbatim>\<open>None\<close> to \<^verbatim>\<open>parent_bone\<close> is a TypeError of the host; \<^verbatim>\<open>armature.pose.bones[...]\<close>
  raises KeyError for a name that is not a pose bone.
\<close>

definition ensure_bone_rigidbody ::
  "blender_armature \<Rightarrow> string option \<Rightarrow> bool \<Rightarrow> real \<Rightarrow> host \<times> (string \<times> nat) list
     \<Rightarrow> py_error + obj_ref \<times> host \<times> (string \<times> nat) list" where
  "ensure_bone_rigidbody armature bone_name is_pivot r st =
     (case st of (s, target_rigid_bodies) \<Rightarrow>
        (let fullname = get_rb_name armature bone_name is_pivot in
         if \<not> in_scene armature s fullname then
           (let obj = length (scene_objects s);
                t1 = primitive_add ''Sphere'' (UVSphere r) s;
                t2 = update_object obj (\<lambda>ob. ob\<lparr>obj_name := fullname\<rparr>) t1;
                t3 = rigidbody_object_add t2;
                t4 = update_rigid_body obj
                       (\<lambda>rb. rb\<lparr>collision_shape := ''SPHERE'', rb_type := ''ACTIVE''\<rparr>) t3;
                t5 = update_object obj (\<lambda>ob. ob\<lparr>obj_parent := Some ArmatureRef\<rparr>) t4
            in if is_pivot then
                 (let t6 = update_rigid_body obj
                             (\<lambda>rb. rb\<lparr>collision_collections0 := False, kinematic := True\<rparr>) t5
                  in case bone_name of
                       None \<Rightarrow> Inl TypeError
                     | Some n \<Rightarrow>
                         Inr (ObjectRef obj,
                              update_object obj
                                (\<lambda>ob. ob\<lparr>parent_bone := n, parent_type := ''BONE''\<rparr>) t6,
                              target_rigid_bodies))
               else
                 (let t6 = update_rigid_body obj
                             (\<lambda>rb. rb\<lparr>collision_collections0 := True, kinematic := False\<rparr>) t5;
                      t7 = t6\<lparr>active := Some ArmatureRef, mode := ''POSE''\<rparr>
                  in case bone_name of
                       None \<Rightarrow> Inl KeyError
                     | Some n \<Rightarrow>
                         if n \<in> set (ba_pose_bones armature) then
                           (let t8 = update_object obj (\<lambda>ob. ob\<lparr>matrix_world_bone := Some n\<rparr>) t7
                            in Inr (ObjectRef obj, t8,
                                    dict_set target_rigid_bodies (obj_name (scene_objects t8 ! obj)) obj))
                         else Inl KeyError))
         else Inr (scene_lookup armature s fullname, s, target_rigid_bodies)))"

text \<open>Lines 344 to 391: the pair of bodies, the joint and the constraints of a spring bone.\<close>

definition add_spring_bone ::
  "blender_armature \<Rightarrow> Bone \<Rightarrow> BonePhysics \<Rightarrow> host \<times> (string \<times> nat) list
     \<Rightarrow> py_error + host \<times> (string \<times> nat) list" where
  "add_spring_bone armature child ph st =
     (case ensure_bone_rigidbody armature (pivot ph) True PIVOT_SIZE st of
        Inl e \<Rightarrow> Inl e
      | Inr (pivot_obj, st1) \<Rightarrow>
          (case ensure_bone_rigidbody armature (Some (name child)) False
                  (radius ph * SPRINGBONE_RADIUS_FACTOR) st1 of
             Inl e \<Rightarrow> Inl e
           | Inr (target, s2, target_rigid_bodies) \<Rightarrow>
               (let joint = length (scene_objects s2);
                    t1 = objects_new_link ''SpringBoneJoint'' s2;
                    t2 = update_object joint
                           (\<lambda>ob. ob\<lparr>empty_display_size := 1 / 10, empty_display_type := ''ARROWS'',
                                    obj_parent := Some pivot_obj\<rparr>) t1;
                    t3 = t2\<lparr>active := Some (ObjectRef joint)\<rparr>;
                    t4 = rigidbody_constraint_add ''GENERIC_SPRING'' t3;
                    t5 = update_constraint joint
                           (\<lambda>ct. ct\<lparr>use_limit_lin_x := True, use_limit_lin_y := True,
                                    use_limit_lin_z := True,
                                    limit_lin_x_lower := 0, limit_lin_x_upper := 0,
                                    limit_lin_y_lower := 0, limit_lin_y_upper := 0,
                                    limit_lin_z_lower := 0, limit_lin_z_upper := 0\<rparr>) t4;
                    t6 = update_constraint joint
                           (\<lambda>ct. ct\<lparr>use_limit_ang_x := False, use_limit_ang_y := True,
                                    use_limit_ang_z := True,
                                    limit_ang_y_lower := radians (lim_min (zAngleLimits ph)),
                                    limit_ang_y_upper := radians (lim_max (zAngleLimits ph)),
                                    limit_ang_z_lower := radians (lim_min (yAngleLimits ph)),
                                    limit_ang_z_upper := radians (lim_max (yAngleLimits ph))\<rparr>) t5;
                    t7 = update_constraint joint
                           (\<lambda>ct. ct\<lparr>use_spring_ang_x := True, use_spring_ang_y := True,
                                    use_spring_ang_z := True,
                                    spring_stiffness_y := angularStiffness ph,
                                    spring_stiffness_z := angularStiffness ph\<rparr>) t6;
                    t8 = update_constraint joint
                           (\<lambda>ct. ct\<lparr>object1 := Some pivot_obj, object2 := Some target\<rparr>) t7;
                    t9 = t8\<lparr>active := Some ArmatureRef, mode := ''POSE''\<rparr>
                in if name child \<in> set (ba_pose_bones armature) then
                     Inr (t9\<lparr>pose_constraints :=
                               pose_constraints t9 @ [(name child, ''COPY_TRANSFORMS'', target)]\<rparr>,
                          target_rigid_bodies)
                   else Inl KeyError)))"

text \<open>Lines 289 to 393: the body of the loop over the bones, for the bone \<open>child\<close>.\<close>

definition physics_of_bone ::
  "blender_armature \<Rightarrow> Bone \<Rightarrow> host \<times> (string \<times> nat) list
     \<Rightarrow> py_error + host \<times> (string \<times> nat) list" where
  "physics_of_bone armature child st =
     (case physics child of
        None \<Rightarrow> Inr st
      | Some ph \<Rightarrow>
          (let st1 = (if type_has (ptype ph) Collider
                      then (add_collider child ph (fst st), snd st) else st)
           in if type_has (ptype ph) BoneFlag then
                (if ptype ph = SpringBone then add_spring_bone armature child ph st1
                 else Inr st1)
              else Inr st1))"

text \<open>Line 288: the loop, over the addresses that the generator yields.\<close>

fun physics_of_bones ::
  "blender_armature \<Rightarrow> Bone list \<Rightarrow> nat list \<Rightarrow> host \<times> (string \<times> nat) list
     \<Rightarrow> py_error + host \<times> (string \<times> nat) list" where
  "physics_of_bones armature bs [] st = Inr st"
| "physics_of_bones armature bs (j # js) st =
     (case physics_of_bone armature (bs ! j) st of
        Inl e \<Rightarrow> Inl e
      | Inr st' \<Rightarrow> physics_of_bones armature bs js st')"

text \<open>Lines 395 to 406.\<close>

definition set_no_collision :: "nat \<Rightarrow> nat \<Rightarrow> host \<Rightarrow> host" where
  "set_no_collision obj parent_obj s =
     (let joint = length (scene_objects s);
          t1 = objects_new_link ''NoCollisionJoint'' s;
          t2 = update_object joint
                 (\<lambda>ob. ob\<lparr>empty_display_size := 1 / 10, empty_display_type := ''ARROWS'',
                          obj_parent := Some (ObjectRef parent_obj)\<rparr>) t1;
          t3 = t2\<lparr>active := Some (ObjectRef joint)\<rparr>;
          t4 = rigidbody_constraint_add ''GENERIC_SPRING'' t3
      in update_constraint joint
           (\<lambda>ct. ct\<lparr>object1 := Some (ObjectRef obj), object2 := Some (ObjectRef parent_obj)\<rparr>) t4)"

text \<open>Lines 407 to 410: the pairs \<open>(rbs[i], rbs[j])\<close> with \<open>i < j\<close>, in the order of the two loops.\<close>

fun no_collision_pairs :: "nat list \<Rightarrow> (nat \<times> nat) list" where
  "no_collision_pairs [] = []"
| "no_collision_pairs (x # xs) = map (\<lambda>y. (x, y)) xs @ no_collision_pairs xs"

definition set_no_collisions :: "nat list \<Rightarrow> host \<Rightarrow> host" where
  "set_no_collisions rbs s = fold (\<lambda>(x, y). set_no_collision x y) (no_collision_pairs rbs) s"

text \<open>
  Lines 269 to 410. \<open>data\<close> is the armature built by \<open>search_env_meshes\<close>; reading
  \<^verbatim>\<open>data.root\<close> of an armature without a root bone is an AttributeError.
\<close>

definition import_armature_physics_constraints ::
  "blender_armature \<Rightarrow> Armature \<Rightarrow> host \<Rightarrow> py_error + host" where
  "import_armature_physics_constraints armature data s =
     (let s0 = s\<lparr>active := Some ArmatureRef, mode := ''OBJECT''\<rparr> in
      case root data of
        None \<Rightarrow> Inl AttributeError
      | Some r \<Rightarrow>
          (case (case recursive_locate_by_name (bones data) r ''Position'' of
                   None \<Rightarrow> Inr (s0, [])
                 | Some bone \<Rightarrow>
                     physics_of_bones armature (bones data) (dfs_generator (bones data) bone)
                       (s0, [])) of
             Inl e \<Rightarrow> Inl e
           | Inr (s1, target_rigid_bodies) \<Rightarrow>
               (if target_rigid_bodies \<noteq> [] then
                  Inr (set_no_collisions (map snd target_rigid_bodies) s1)
                else Inr s1)))"

text \<open>
  The objects that the function adds to the scene, as records: the collider of a bone, the
  pivot and the target body of a spring bone, and a joint with its constraint.
\<close>

definition collider_object :: "Bone \<Rightarrow> obj_data \<Rightarrow> string \<Rightarrow> scene_object" where
  "collider_object child d shape =
     (new_object (name child @ ''_rigidbody'') d)
       \<lparr>obj_parent := Some ArmatureRef, parent_bone := name child, parent_type := ''BONE'',
        rigid_body := Some \<lparr>rb_type = ''PASSIVE'', collision_shape = shape, kinematic = True,
                            collision_collections0 = True\<rparr>\<rparr>"

definition pivot_object :: "string \<Rightarrow> string \<Rightarrow> real \<Rightarrow> scene_object" where
  "pivot_object fullname n r =
     (new_object fullname (UVSphere r))
       \<lparr>obj_parent := Some ArmatureRef, parent_bone := n, parent_type := ''BONE'',
        rigid_body := Some \<lparr>rb_type = ''ACTIVE'', collision_shape = ''SPHERE'', kinematic = True,
                            collision_collections0 = False\<rparr>\<rparr>"

definition target_object :: "string \<Rightarrow> string \<Rightarrow> real \<Rightarrow> scene_object" where
  "target_object fullname n r =
     (new_object fullname (UVSphere r))
       \<lparr>obj_parent := Some ArmatureRef,
        rigid_body := Some \<lparr>rb_type = ''ACTIVE'', collision_shape = ''SPHERE'', kinematic = False,
                            collision_collections0 = True\<rparr>,
        matrix_world_bone := Some n\<rparr>"

definition spring_constraint :: "BonePhysics \<Rightarrow> obj_ref \<Rightarrow> obj_ref \<Rightarrow> rigid_body_constraint" where
  "spring_constraint ph pivot_obj target =
     (host_constraint ''GENERIC_SPRING'')
       \<lparr>use_limit_lin_x := True, use_limit_lin_y := True, use_limit_lin_z := True,
        limit_lin_x_lower := 0, limit_lin_x_upper := 0,
        limit_lin_y_lower := 0, limit_lin_y_upper := 0,
        limit_lin_z_lower := 0, limit_lin_z_upper := 0,
        use_limit_ang_x := False, use_limit_ang_y := True, use_limit_ang_z := True,
        limit_ang_y_lower := radians (lim_min (zAngleLimits ph)),
        limit_ang_y_upper := radians (lim_max (zAngleLimits ph)),
        limit_ang_z_lower := radians (lim_min (yAngleLimits ph)),
        limit_ang_z_upper := radians (lim_max (yAngleLimits ph)),
        use_spring_ang_x := True, use_spring_ang_y := True, use_spring_ang_z := True,
        spring_stiffness_y := angularStiffness ph, spring_stiffness_z := angularStiffness ph,
        object1 := Some pivot_obj, object2 := Some target\<rparr>"

definition joint_object :: "string \<Rightarrow> obj_ref \<Rightarrow> rigid_body_constraint \<Rightarrow> scene_object" where
  "joint_object n par ct =
     (new_object n Empty)
       \<lparr>obj_parent := Some par, constraint := Some ct,
        empty_display_size := 1 / 10, empty_display_type := ''ARROWS''\<rparr>"

definition no_collision_constraint :: "nat \<Rightarrow> nat \<Rightarrow> rigid_body_constraint" where
  "no_collision_constraint x y =
     (host_constraint ''GENERIC_SPRING'')\<lparr>object1 := Some (ObjectRef x), object2 := Some (ObjectRef y)\<rparr>"

text \<open>
  Pivot and target bodies, told apart by their rigid body: both are active; a pivot is
  kinematic and does not collide, a target is not kinematic and collides (lines 326 to 333).
  Colliders are passive.
\<close>

definition is_pivot_body :: "scene_object \<Rightarrow> bool" where
  "is_pivot_body ob =
     (case rigid_body ob of
        None \<Rightarrow> False
      | Some rb \<Rightarrow> rb_type rb = ''ACTIVE'' \<and> kinematic rb \<and> \<not> collision_collections0 rb)"

definition is_target_body :: "scene_object \<Rightarrow> bool" where
  "is_target_body ob =
     (case rigid_body ob of
        None \<Rightarrow> False
      | Some rb \<Rightarrow> rb_type rb = ''ACTIVE'' \<and> \<not> kinematic rb \<and> collision_collections0 rb)"

text \<open>
  What the loop over the bones adds to the scene, for bones among \<open>bs\<close>, and the invariant
  of the loop: the values of \<^verbatim>\<open>target_rigid_bodies\<close> are the addresses of the target
  bodies added so far, in order; the bodies added so far have distinct names; the keys of
  \<^verbatim>\<open>target_rigid_bodies\<close> are names of objects of the scene.
\<close>

definition new_ok :: "blender_armature \<Rightarrow> Bone set \<Rightarrow> scene_object \<Rightarrow> bool" where
  "new_ok armature bs ob \<longleftrightarrow>
     (\<exists>child d shape. child \<in> bs \<and> ob = collider_object child d shape) \<or>
     (\<exists>n r. ob = pivot_object (get_rb_name armature (Some n) True) n r) \<or>
     (\<exists>n r. ob = target_object (get_rb_name armature (Some n) False) n r) \<or>
     (\<exists>child ph pv tg. child \<in> bs \<and> physics child = Some ph \<and> ptype ph = SpringBone \<and>
        ob = joint_object ''SpringBoneJoint'' pv (spring_constraint ph pv tg))"

definition loop_inv ::
  "blender_armature \<Rightarrow> Bone set \<Rightarrow> nat \<Rightarrow> scene_object list \<Rightarrow> (string \<times> nat) list \<Rightarrow> bool" where
  "loop_inv armature bs n0 obs trb \<longleftrightarrow>
     n0 \<le> length obs \<and>
     map snd trb = filter (\<lambda>i. is_target_body (obs ! i)) [n0..<length obs] \<and>
     (\<forall>ob\<in>set (drop n0 obs). new_ok armature bs ob) \<and>
     distinct (map obj_name (filter (\<lambda>ob. is_pivot_body ob \<or> is_target_body ob) (drop n0 obs))) \<and>
     fst ` set trb \<subseteq> set (map obj_name obs)"

text \<open>
  The bones that the loop of line 288 visits; the objects, the target bodies and the
  no-collision links that a call has added to the scene \<open>s\<close>, read from the scene \<open>s'\<close> it
  returns; and whether a link joins two bodies.
\<close>

definition visited_bones :: "Armature \<Rightarrow> Bone list" where
  "visited_bones data =
     (case root data of
        None \<Rightarrow> []
      | Some r \<Rightarrow>
          (case recursive_locate_by_name (bones data) r ''Position'' of
             None \<Rightarrow> []
           | Some bone \<Rightarrow> map (\<lambda>j. bones data ! j) (dfs_generator (bones data) bone)))"

definition new_objects :: "host \<Rightarrow> host \<Rightarrow> scene_object list" where
  "new_objects s s' = drop (length (scene_objects s)) (scene_objects s')"

definition new_targets :: "host \<Rightarrow> host \<Rightarrow> nat list" where
  "new_targets s s' =
     filter (\<lambda>i. is_target_body (scene_objects s' ! i)) [length (scene_objects s)..<length (scene_objects s')]"

definition no_collision_links :: "host \<Rightarrow> host \<Rightarrow> scene_object list" where
  "no_collision_links s s' = filter (\<lambda>ob. obj_name ob = ''NoCollisionJoint'') (new_objects s s')"

definition joins :: "scene_object \<Rightarrow> nat \<Rightarrow> nat \<Rightarrow> bool" where
  "joins ob a b =
     (case constraint ob of
        None \<Rightarrow> False
      | Some ct \<Rightarrow>
          (object1 ct = Some (ObjectRef a) \<and> object2 ct = Some (ObjectRef b)) \<or>
          (object1 ct = Some (ObjectRef b) \<and> object2 ct = Some (ObjectRef a)))"

definition no_collision_joint :: "nat \<times> nat \<Rightarrow> scene_object" where
  "no_collision_joint p =
     joint_object ''NoCollisionJoint'' (ObjectRef (snd p)) (no_collision_constraint (fst p) (snd p))"

section \<open>A spring rig: three hair bones on one pivot\<close>

definition rig_bones :: "Bone list" where
  "rig_bones =
     [plain_bone ''Position'' None [1, 2, 3] '''',
      physics_bone ''Hair1'' (Some 0) [] ''Hair1'' (spring_physics ''Position''),
      physics_bone ''Hair2'' (Some 0) [] ''Hair2'' (spring_physics ''Position''),
      physics_bone ''Hair3'' (Some 0) [] ''Hair3'' (spring_physics ''Position'')]"

definition spring_rig :: Armature where
  "spring_rig =
     \<lparr>arm_name = ''Position'', skinned_mesh_gameobject = None, root = Some 0,
      bone_path_hash_tbl = Map.empty, bone_name_tbl = Map.empty, bones = rig_bones\<rparr>"

definition rig_armature :: blender_armature where
  "rig_armature = \<lparr>ba_name = ''Arm'', ba_pose_bones = [''Position'', ''Hair1'', ''Hair2'', ''Hair3'']\<rparr>"

definition empty_scene :: host where
  "empty_scene = \<lparr>scene_objects = [], active = None, mode = ''OBJECT'', pose_constraints = []\<rparr>"

definition rig_joint :: "nat \<Rightarrow> scene_object" where
  "rig_joint target =
     joint_object ''SpringBoneJoint'' (ObjectRef 0)
       (spring_constraint (spring_physics ''Position'') (ObjectRef 0) (ObjectRef target))"

definition rig_objects :: "scene_object list" where
  "rig_objects =
     [pivot_object ''Arm_Position_pivot_rigidbody'' ''Position'' PIVOT_SIZE,
      target_object ''Arm_Hair1_target_rigidbody'' ''Hair1'' 1, rig_joint 1,
      target_object ''Arm_Hair2_target_rigidbody'' ''Hair2'' 1, rig_joint 3,
      target_object ''Arm_Hair3_target_rigidbody'' ''Hair3'' 1, rig_joint 5,
      no_collision_joint (1, 3), no_collision_joint (1, 5), no_collision_joint (3, 5)]"

definition rig_result :: host where
  "rig_result =
     \<lparr>scene_objects = rig_objects, active = Some (ObjectRef 9), mode = ''POSE'',
      pose_constraints =
        [(''Hair1'', ''COPY_TRANSFORMS'', ObjectRef 1), (''Hair2'', ''COPY_TRANSFORMS'', ObjectRef 3),
         (''Hair3'', ''COPY_TRANSFORMS'', ObjectRef 5)]\<rparr>"

definition no_position_objects :: "env_object list" where
  "no_position_objects =
     [TransformObj (node 1 0 (skinned_object ''Body'') [node 2 1 (plain_object ''Hips'') []])]"

definition body_armature :: "(string \<Rightarrow> int) \<Rightarrow> Armature" where
  "body_armature h =
     \<lparr>arm_name = ''Body'', skinned_mesh_gameobject = Some (skinned_object ''Body''),
      root = Some 0,
      bone_path_hash_tbl = [h '''' \<mapsto> 0, h ''Hips'' \<mapsto> 1],
      bone_name_tbl = [''Body'' \<mapsto> 0, ''Hips'' \<mapsto> 1],
      bones = [plain_bone ''Body'' None [1] '''', plain_bone ''Hips'' (Some 0) [] ''Hips'']\<rparr>"

section \<open>Properties of the traversal\<close>

lemma bones_mark_skinned [simp]: "bones (mark_skinned g a) = bones a"
  by (simp add: mark_skinned_def)

lemma root_mark_skinned [simp]: "root (mark_skinned g a) = root a"
  by (simp add: mark_skinned_def)

lemma new_bone_sel [simp]:
  "name (new_bone n lp lr ls par path bp) = n"
  "parent (new_bone n lp lr ls par path bp) = par"
  "children (new_bone n lp lr ls par path bp) = []"
  "global_path (new_bone n lp lr ls par path bp) = path"
  "physics (new_bone n lp lr ls par path bp) = bp"
  by (simp_all add: new_bone_def)

lemma bones_add_bone:
  "bones (fst (add_bone h pid n lp lr ls par path bp (a, tbl))) =
     (let bs = bones a @ [new_bone n lp lr ls par path bp] in
     case par of
        None \<Rightarrow> bs
      | Some p \<Rightarrow> bs[p := (bs ! p)\<lparr>children := children (bs ! p) @ [length (bones a)]\<rparr>])"
  by (auto simp: add_bone_def link_bone_def Let_def new_bone_def split: option.splits)

lemma wf_store_add_bone_root:
  assumes "bones a = []"
  shows "wf_store (bones (fst (add_bone h pid n lp lr ls None (path_from_root_of (bones a) None n) bp (a, tbl))))"
  using assms unfolding bones_add_bone
  by (auto simp: wf_store_def path_from_root_of_def)

lemma wf_store_link:
  assumes wf: "wf_store bs" and p: "p < length bs"
    and nb: "parent nb = Some p" "children nb = []"
       "global_path nb = path_from_root_of bs (Some p) (name nb)"
  defines "bs' \<equiv> (bs @ [nb])[p := ((bs @ [nb]) ! p)\<lparr>children := children ((bs @ [nb]) ! p) @ [length bs]\<rparr>]"
  shows "wf_store bs'"
proof -
  have len: "length bs' = Suc (length bs)" by (simp add: bs'_def)
  have par: "parent (bs' ! i) = (if i = length bs then Some p else parent (bs ! i))"
    if "i \<le> length bs" for i
    using that p nb by (auto simp: bs'_def nth_list_update nth_append)
  have nm: "name (bs' ! i) = (if i = length bs then name nb else name (bs ! i))"
    if "i \<le> length bs" for i
    using that p nb by (auto simp: bs'_def nth_list_update nth_append)
  have gp: "global_path (bs' ! i) = (if i = length bs then global_path nb else global_path (bs ! i))"
    if "i \<le> length bs" for i
    using that p nb by (auto simp: bs'_def nth_list_update nth_append)
  have ch: "children (bs' ! i) =
      (if i = length bs then [] else if i = p then children (bs ! p) @ [length bs] else children (bs ! i))"
    if "i \<le> length bs" for i
    using that p nb by (auto simp: bs'_def nth_list_update nth_append)
  from wf have w1: "\<And>i. i < length bs \<Longrightarrow> (case parent (bs ! i) of None \<Rightarrow> i = 0 | Some q \<Rightarrow> q < i)"
    and w2: "\<And>i j. i < length bs \<Longrightarrow> (j \<in> set (children (bs ! i))) = (j < length bs \<and> parent (bs ! j) = Some i)"
    and w3: "\<And>i. i < length bs \<Longrightarrow> distinct (children (bs ! i))"
    and w4: "\<And>i. i < length bs \<Longrightarrow> global_path (bs ! i) = path_from_root_of bs (parent (bs ! i)) (name (bs ! i))"
    by (simp_all add: wf_store_def)
  have c1: "case parent (bs' ! i) of None \<Rightarrow> i = 0 | Some q \<Rightarrow> q < i" if "i < length bs'" for i
    using that len par[of i] w1[of i] p by (cases "i = length bs") auto
  have c2: "(j \<in> set (children (bs' ! i))) = (j < length bs' \<and> parent (bs' ! j) = Some i)"
    if "i < length bs'" for i j
  proof (cases "j \<le> length bs")
    case True
    then show ?thesis
      using that len par[of j] ch[of i] w2[of i j] w1[of j] p
      by (cases "i = length bs"; cases "j = length bs"; cases "i = p") (auto split: option.splits)
  next
    case False
    then show ?thesis
      using that len ch[of i] w2[of i j] p
      by (cases "i = length bs"; cases "i = p") auto
  qed
  have c3: "distinct (children (bs' ! i))" if "i < length bs'" for i
    using that len ch[of i] w3[of i] w2[of p "length bs"] p
    by (cases "i = length bs"; cases "i = p") auto
  have pth: "path_from_root_of bs' (Some q) x = path_from_root_of bs (Some q) x" if "q < length bs" for q x
    using that gp[of q] by (simp add: path_from_root_of_def)
  have c4: "global_path (bs' ! i) = path_from_root_of bs' (parent (bs' ! i)) (name (bs' ! i))"
    if "i < length bs'" for i
  proof (cases "i = length bs")
    case True
    then show ?thesis using par[of i] nm[of i] gp[of i] nb pth[OF p] by simp
  next
    case False
    with that len have i: "i < length bs" by simp
    show ?thesis
    proof (cases "parent (bs ! i)")
      case None
      then show ?thesis using i par[of i] nm[of i] gp[of i] w4[of i]
        by (simp add: path_from_root_of_def)
    next
      case (Some q)
      with w1[OF i] i have "q < length bs" by simp
      from pth[OF this] Some show ?thesis using i par[of i] nm[of i] gp[of i] w4[of i] by simp
    qed
  qed
  show ?thesis unfolding wf_store_def using c1 c2 c3 c4 by blast
qed

lemma wf_store_add_bone_child:
  assumes "wf_store (bones a)" "p < length (bones a)"
  shows "wf_store (bones (fst (add_bone h pid n lp lr ls (Some p) (path_from_root_of (bones a) (Some p) n) bp (a, tbl))))"
  unfolding bones_add_bone Let_def option.case
  by (rule wf_store_link[OF assms]) simp_all

lemma length_bones_add_bone:
  "length (bones (fst (add_bone h pid n lp lr ls par path bp (a, tbl)))) = Suc (length (bones a))"
  by (simp add: bones_add_bone Let_def split: option.splits)

lemma root_add_bone:
  "root (fst (add_bone h pid n lp lr ls par path bp (a, tbl))) =
     (case par of None \<Rightarrow> Some (length (bones a)) | Some p \<Rightarrow> root a)"
  by (simp add: add_bone_def link_bone_def Let_def split: option.splits)

lemma dfs_wf:
  "(wf_store (bones (fst s)) \<longrightarrow> (case par of None \<Rightarrow> bones (fst s) = [] | Some p \<Rightarrow> p < length (bones (fst s))) \<longrightarrow>
      dfs h t par s = Inr s' \<longrightarrow>
      wf_store (bones (fst s')) \<and> length (bones (fst s)) < length (bones (fst s')) \<and>
      root (fst s') = (case par of None \<Rightarrow> Some 0 | Some p \<Rightarrow> root (fst s)))"
  "(wf_store (bones (fst s)) \<longrightarrow> i < length (bones (fst s)) \<longrightarrow>
      dfs_children h ts i s = Inr s' \<longrightarrow>
      wf_store (bones (fst s')) \<and> length (bones (fst s)) \<le> length (bones (fst s')) \<and>
      root (fst s') = root (fst s))"
proof (induction h t par s and h ts i s arbitrary: s' and s' rule: dfs_dfs_children.induct)
  case (1 hash pid father gameObject lpos lrot lscale chs par s)
  show ?case
  proof (intro impI)
    obtain a tbl where s: "s = (a, tbl)" by (cases s)
    assume wf: "wf_store (bones (fst s))"
      and po: "case par of None \<Rightarrow> bones (fst s) = [] | Some p \<Rightarrow> p < length (bones (fst s))"
      and run: "dfs hash (TransformNode pid father gameObject lpos lrot lscale chs) par s = Inr s'"
    define a1 where "a1 = mark_skinned gameObject a"
    define path where "path = path_from_root_of (bones a1) par (m_Name gameObject)"
    from run s obtain bp where
      sc: "scan_components tbl (bones a1) (m_Components gameObject) None = Inr bp"
      and ch: "dfs_children hash chs (length (bones a1))
                 (add_bone hash pid (m_Name gameObject) lpos lrot lscale par path bp (a1, tbl)) = Inr s'"
      by (auto simp: Let_def a1_def path_def split: sum.splits)
    define s2 where "s2 = add_bone hash pid (m_Name gameObject) lpos lrot lscale par path bp (a1, tbl)"
    have b1: "bones a1 = bones a" by (simp add: a1_def)
    have wf2: "wf_store (bones (fst s2))"
    proof (cases par)
      case None
      with po s b1 have "bones a1 = []" by simp
      from wf_store_add_bone_root[OF this] show ?thesis by (simp add: s2_def path_def None)
    next
      case (Some p)
      with po s b1 wf have "wf_store (bones a1)" "p < length (bones a1)" by simp_all
      from wf_store_add_bone_child[OF this] show ?thesis by (simp add: s2_def path_def Some)
    qed
    have len2: "length (bones (fst s2)) = Suc (length (bones a))"
      by (simp add: s2_def length_bones_add_bone b1)
    have root2: "root (fst s2) = (case par of None \<Rightarrow> Some (length (bones a)) | Some p \<Rightarrow> root a)"
      by (simp add: s2_def root_add_bone b1 a1_def split: option.splits)
    have ih: "wf_store (bones (fst s')) \<and> length (bones (fst s2)) \<le> length (bones (fst s')) \<and>
      root (fst s') = root (fst s2)"
      using "1.IH"[of a tbl "m_Name gameObject" a1 path bp s', folded s2_def]
        s sc ch wf2 len2 b1
      by (simp add: a1_def path_def s2_def)
    show "wf_store (bones (fst s')) \<and> length (bones (fst s)) < length (bones (fst s')) \<and>
      root (fst s') = (case par of None \<Rightarrow> Some 0 | Some p \<Rightarrow> root (fst s))"
      using ih len2 root2 po s by (auto split: option.splits)
  qed
next
  case (2 hash i s)
  then show ?case by auto
next
  case (3 hash c cs i s)
  show ?case
  proof (intro impI)
    assume wf: "wf_store (bones (fst s))" and i: "i < length (bones (fst s))"
      and run: "dfs_children hash (c # cs) i s = Inr s'"
    from run obtain s1 where d: "dfs hash c (Some i) s = Inr s1"
      and r: "dfs_children hash cs i s1 = Inr s'"
      by (auto split: sum.splits)
    from "3.IH"(1)[of s1] wf i d have
      s1: "wf_store (bones (fst s1))" "length (bones (fst s)) < length (bones (fst s1))"
          "root (fst s1) = root (fst s)" by simp_all
    from "3.IH"(2)[OF d, of s'] s1 i r
    show "wf_store (bones (fst s')) \<and> length (bones (fst s)) \<le> length (bones (fst s')) \<and>
      root (fst s') = root (fst s)" by simp
  qed
qed

lemma index_tbl_Nil [simp]: "index_tbl [] = Map.empty"
  by (simp add: index_tbl_def)

lemma index_tbl_snoc: "index_tbl (ks @ [k]) = (index_tbl ks)(k \<mapsto> length ks)"
  by (simp add: index_tbl_def)

lemma index_tbl_Some:
  "index_tbl ks k = Some j \<longleftrightarrow>
     j < length ks \<and> ks ! j = k \<and> (\<forall>j'<length ks. ks ! j' = k \<longrightarrow> j' \<le> j)"
proof (induction ks arbitrary: j rule: rev_induct)
  case Nil
  then show ?case by simp
next
  case (snoc x xs)
  show ?case
  proof (cases "x = k")
    case True
    then show ?thesis
      by (auto simp: index_tbl_snoc nth_append less_Suc_eq)
  next
    case False
    then show ?thesis
      using snoc[of j]
      by (auto simp: index_tbl_snoc nth_append less_Suc_eq)
  qed
qed

lemma dom_index_tbl: "dom (index_tbl ks) = set ks"
proof -
  have "map fst (zip ks [0..<length ks]) = ks"
    by (rule map_fst_zip) simp
  then have "set (map fst (zip ks [0..<length ks])) = set ks"
    by (rule arg_cong)
  then have "fst ` set (zip ks [0..<length ks]) = set ks"
    by (simp only: set_map)
  then show ?thesis by (simp add: index_tbl_def dom_map_of_conv_image_fst)
qed

lemma scan_components_cong:
  "(\<And>P j. tbl P = Some j \<Longrightarrow> name (bs ! j) = name (bs' ! j)) \<Longrightarrow>
   scan_components tbl bs cs acc = scan_components tbl bs' cs acc"
  by (induction cs arbitrary: acc) (auto simp: Let_def split: option.splits)

lemma scan_components_ok:
  "(\<exists>r. scan_components tbl bs cs acc = Inr r) \<longleftrightarrow> set (pivot_refs cs) \<subseteq> dom tbl"
proof (induction cs arbitrary: acc)
  case Nil
  then show ?case by (simp add: pivot_refs_def List.map_filter_simps)
next
  case (Cons c cs)
  have pr: "pivot_refs (c # cs) =
      (if recognized c then (case pivotNode (read_typetree c) of None \<Rightarrow> pivot_refs cs | Some P \<Rightarrow> P # pivot_refs cs)
       else pivot_refs cs)"
    by (simp add: pivot_refs_def List.map_filter_simps split: option.splits)
  show ?case
    unfolding pr using Cons[of acc] Cons
    by (auto simp: recognized_def Let_def split: option.splits)
qed

lemma scan_components_error: "scan_components tbl bs cs acc = Inl e \<Longrightarrow> e = KeyError"
  by (induction cs arbitrary: acc) (auto simp: Let_def split: option.splits if_splits)

lemma dfs_error:
  "dfs h t par s = Inl e \<Longrightarrow> e = KeyError"
  "dfs_children h ts i s = Inl e \<Longrightarrow> e = KeyError"
proof (induction h t par s and h ts i s rule: dfs_dfs_children.induct)
  case (1 hash pid father gameObject lpos lrot lscale chs par s)
  obtain a tbl where s: "s = (a, tbl)" by (cases s)
  show ?case
  proof (cases "scan_components tbl (bones (mark_skinned gameObject a)) (m_Components gameObject) None")
    case (Inl e')
    with "1.prems" s have "e = e'" by (simp add: Let_def)
    with scan_components_error[OF Inl] show ?thesis by simp
  next
    case (Inr bp)
    with "1.prems" s "1.IH"[OF s[symmetric] refl refl refl Inr] show ?thesis
      by (simp add: Let_def)
  qed
next
  case (2 hash i s)
  then show ?case by simp
next
  case (3 hash c cs i s)
  then show ?case by (auto split: sum.splits)
qed

lemma build_armature_error: "build_armature h r = Inl e \<Longrightarrow> e = KeyError"
  by (auto simp: build_armature_def dfs_error(1) split: sum.splits)

lemma scan_components_None:
  "scan_components tbl bs cs acc = Inr r \<Longrightarrow>
     (r \<noteq> None) = (acc \<noteq> None \<or> (\<exists>c\<in>set cs. recognized c))"
  by (induction cs arbitrary: acc) (auto simp: recognized_def Let_def split: option.splits if_splits)

lemma dfs_invariant:
  assumes "\<And>ns pid father g lp lr ls chs par a tbl bp.
     I ns (a, tbl) \<Longrightarrow> scan_components tbl (bones a) (m_Components g) None = Inr bp \<Longrightarrow>
     I (ns @ [TransformNode pid father g lp lr ls chs])
       (add_bone h pid (m_Name g) lp lr ls par
          (path_from_root_of (bones a) par (m_Name g)) bp (mark_skinned g a, tbl))"
  shows "I ns s \<Longrightarrow> dfs h t par s = Inr s' \<Longrightarrow> I (ns @ preorder t) s'"
    and "I ns s \<Longrightarrow> dfs_children h ts i s = Inr s' \<Longrightarrow> I (ns @ preorder_list ts) s'"
  using assms
proof (induction h t par s and h ts i s arbitrary: ns s' and ns s' rule: dfs_dfs_children.induct)
  case (1 hash pid father gameObject lpos lrot lscale chs par s)
  obtain a tbl where s: "s = (a, tbl)" by (cases s)
  define a1 where "a1 = mark_skinned gameObject a"
  define path where "path = path_from_root_of (bones a1) par (m_Name gameObject)"
  from "1.prems"(2) s obtain bp where
    sc: "scan_components tbl (bones a1) (m_Components gameObject) None = Inr bp"
    and ch: "dfs_children hash chs (length (bones a1))
               (add_bone hash pid (m_Name gameObject) lpos lrot lscale par path bp (a1, tbl)) = Inr s'"
    by (auto simp: Let_def a1_def path_def split: sum.splits)
  have b1: "bones a1 = bones a" by (simp add: a1_def)
  have "I (ns @ [TransformNode pid father gameObject lpos lrot lscale chs])
       (add_bone hash pid (m_Name gameObject) lpos lrot lscale par path bp (a1, tbl))"
    using "1.prems"(3)[of ns a tbl gameObject bp pid father lpos lrot lscale chs par]
      "1.prems"(1) sc s b1
    by (simp add: a1_def path_def)
  from "1.IH"[OF s[symmetric] refl a1_def path_def sc this ch "1.prems"(3)]
  show ?case by simp
next
  case (2 hash i s)
  then show ?case by simp
next
  case (3 hash c cs i s)
  from "3.prems"(2) obtain s1 where d: "dfs hash c (Some i) s = Inr s1"
    and r: "dfs_children hash cs i s1 = Inr s'"
    by (auto split: sum.splits)
  from "3.IH"(1)[OF "3.prems"(1) d "3.prems"(3)] have "I (ns @ preorder c) s1" .
  from "3.IH"(2)[OF d this r "3.prems"(3)] show ?case by simp
qed

lemma map_children_update:
  assumes "\<And>b c. f (b\<lparr>children := c\<rparr>) = f b"
  shows "map f (bs[p := (bs ! p)\<lparr>children := c\<rparr>]) = map f bs"
proof (cases "p < length bs")
  case True
  then show ?thesis by (simp add: map_update assms list_update_same_conv)
next
  case False
  then have "bs[p := (bs ! p)\<lparr>children := c\<rparr>] = bs"
    by (intro list_update_beyond) simp
  then show ?thesis by simp
qed

lemma map_bones_add_bone:
  assumes "\<And>b c. f (b\<lparr>children := c\<rparr>) = f b"
  shows "map f (bones (fst (add_bone h pid n lp lr ls par path bp (a, tbl)))) =
         map f (bones a) @ [f (new_bone n lp lr ls par path bp)]"
  unfolding bones_add_bone Let_def
  by (cases par) (simp_all add: map_children_update[OF assms])

lemma add_bone_tables:
  "snd (add_bone h pid n lp lr ls par path bp (a, tbl)) = tbl(pid \<mapsto> length (bones a))"
  "bone_name_tbl (fst (add_bone h pid n lp lr ls par path bp (a, tbl))) =
     (bone_name_tbl a)(n \<mapsto> length (bones a))"
  "bone_path_hash_tbl (fst (add_bone h pid n lp lr ls par path bp (a, tbl))) =
     (bone_path_hash_tbl a)(h path \<mapsto> length (bones a))"
  "skinned_mesh_gameobject (fst (add_bone h pid n lp lr ls par path bp (a, tbl))) =
     skinned_mesh_gameobject a"
  by (simp_all add: add_bone_def link_bone_def Let_def split: option.splits)

lemma mark_skinned_fields [simp]:
  "bone_name_tbl (mark_skinned g a) = bone_name_tbl a"
  "bone_path_hash_tbl (mark_skinned g a) = bone_path_hash_tbl a"
  "skinned_mesh_gameobject (mark_skinned g a) =
     (if truthy (m_SkinnedMeshRenderer g) then Some g else skinned_mesh_gameobject a)"
  by (simp_all add: mark_skinned_def)

lemma index_tbl_range: "index_tbl ks k = Some j \<Longrightarrow> j < length ks"
  by (simp add: index_tbl_Some)

lemma trace_inv_step:
  assumes inv: "trace_inv h ns (a, tbl)"
    and sc: "scan_components tbl (bones a) (m_Components g) None = Inr bp"
  shows "trace_inv h (ns @ [TransformNode pid father g lp lr ls chs])
       (add_bone h pid (m_Name g) lp lr ls par
          (path_from_root_of (bones a) par (m_Name g)) bp (mark_skinned g a, tbl))"
proof -
  define path where "path = path_from_root_of (bones a) par (m_Name g)"
  define s2 where "s2 = add_bone h pid (m_Name g) lp lr ls par path bp (mark_skinned g a, tbl)"
  define bs' where "bs' = bones (fst s2)"
  define t where "t = TransformNode pid father g lp lr ls chs"
  from inv have
    i1: "map name (bones a) = map (\<lambda>t. m_Name (m_GameObject t)) ns"
    and i2: "tbl = index_tbl (map path_id ns)"
    and i3: "bone_name_tbl a = index_tbl (map name (bones a))"
    and i4: "bone_path_hash_tbl a = index_tbl (map (\<lambda>b. h (global_path b)) (bones a))"
    and i5: "\<And>k. k < length ns \<Longrightarrow>
           scan_components (index_tbl (map path_id (take k ns))) (bones a)
             (m_Components (m_GameObject (ns ! k))) None = Inr (physics (bones a ! k))"
    and i6: "(skinned_mesh_gameobject a \<noteq> None) =
           (\<exists>t\<in>set ns. truthy (m_SkinnedMeshRenderer (m_GameObject t)))"
    by (simp_all add: trace_inv_def)
  from i1 have len: "length (bones a) = length ns"
    by (metis length_map)
  have nm: "map name bs' = map name (bones a) @ [m_Name g]"
    unfolding bs'_def s2_def by (subst map_bones_add_bone) simp_all
  have gp: "map (\<lambda>b. h (global_path b)) bs' = map (\<lambda>b. h (global_path b)) (bones a) @ [h path]"
    unfolding bs'_def s2_def by (subst map_bones_add_bone) simp_all
  have ph: "map physics bs' = map physics (bones a) @ [bp]"
    unfolding bs'_def s2_def by (subst map_bones_add_bone) simp_all
  have len': "length bs' = Suc (length ns)"
    using nm len by (metis length_append_singleton length_map)
  have nth_name: "name (bs' ! j) = name (bones a ! j)" if "j < length ns" for j
  proof -
    have "name (bs' ! j) = map name bs' ! j" using that len' by simp
    also have "\<dots> = map name (bones a) ! j" using that len by (simp add: nm nth_append)
    also have "\<dots> = name (bones a ! j)" using that len by simp
    finally show ?thesis .
  qed
  have nth_phys: "physics (bs' ! j) = (if j = length ns then bp else physics (bones a ! j))"
    if "j \<le> length ns" for j
  proof -
    have "physics (bs' ! j) = map physics bs' ! j" using that len' by simp
    also have "\<dots> = (if j = length ns then bp else map physics (bones a) ! j)"
      using that len by (simp add: ph nth_append)
    also have "\<dots> = (if j = length ns then bp else physics (bones a ! j))"
      using that len by simp
    finally show ?thesis .
  qed
  have c1: "map name bs' = map (\<lambda>t. m_Name (m_GameObject t)) (ns @ [t])"
    by (simp add: nm i1 t_def)
  have c2: "snd s2 = index_tbl (map path_id (ns @ [t]))"
    by (simp add: s2_def add_bone_tables i2 index_tbl_snoc t_def len)
  have c3: "bone_name_tbl (fst s2) = index_tbl (map name bs')"
    by (simp add: s2_def add_bone_tables i3 nm index_tbl_snoc)
  have c4: "bone_path_hash_tbl (fst s2) = index_tbl (map (\<lambda>b. h (global_path b)) bs')"
    by (simp add: s2_def add_bone_tables i4 gp index_tbl_snoc)
  have c5: "scan_components (index_tbl (map path_id (take k (ns @ [t])))) bs'
             (m_Components (m_GameObject ((ns @ [t]) ! k))) None = Inr (physics (bs' ! k))"
    if k: "k < length (ns @ [t])" for k
  proof -
    have cong: "scan_components (index_tbl (map path_id (take k ns))) bs' cs None =
        scan_components (index_tbl (map path_id (take k ns))) (bones a) cs None" for cs
    proof (rule scan_components_cong)
      fix P j assume "index_tbl (map path_id (take k ns)) P = Some j"
      from index_tbl_range[OF this] have "j < length ns" by simp
      from nth_name[OF this] show "name (bs' ! j) = name (bones a ! j)" .
    qed
    show ?thesis
    proof (cases "k = length ns")
      case True
      then show ?thesis
        using cong[of "m_Components g"] sc i2 nth_phys[of k]
        by (simp add: t_def)
    next
      case False
      with k have kl: "k < length ns" by simp
      then show ?thesis
        using cong[of "m_Components (m_GameObject (ns ! k))"] i5[OF kl] nth_phys[of k]
        by (simp add: nth_append)
    qed
  qed
  have c6: "(skinned_mesh_gameobject (fst s2) \<noteq> None) =
           (\<exists>t\<in>set (ns @ [t]). truthy (m_SkinnedMeshRenderer (m_GameObject t)))"
    using i6 by (auto simp: s2_def add_bone_tables t_def)
  have "trace_inv h (ns @ [t]) s2"
    unfolding trace_inv_def
    using c1 c2 c3 c4 c5 c6 by (cases s2) (simp add: bs'_def)
  then show ?thesis by (simp add: s2_def t_def path_def)
qed

lemma trace_inv_dfs:
  "trace_inv h ns s \<Longrightarrow> dfs h t par s = Inr s' \<Longrightarrow> trace_inv h (ns @ preorder t) s'"
  by (rule dfs_invariant(1)[where I = "trace_inv h"]) (rule trace_inv_step)

lemma trace_inv_init: "trace_inv h [] (new_Armature n, Map.empty)"
  by (simp add: trace_inv_def new_Armature_def)

lemma refs_ok_append:
  "refs_ok seen (xs @ ys) = (refs_ok seen xs \<and> refs_ok (seen @ map path_id xs) ys)"
  by (induction xs arbitrary: seen) auto

lemma refs_ok_nth:
  "refs_ok seen ns =
     (\<forall>k<length ns. set (pivot_refs (m_Components (m_GameObject (ns ! k))))
          \<subseteq> set seen \<union> path_id ` set (take k ns))"
proof (induction ns arbitrary: seen)
  case Nil
  then show ?case by simp
next
  case (Cons t ts)
  have "(\<forall>k<length (t # ts). set (pivot_refs (m_Components (m_GameObject ((t # ts) ! k))))
          \<subseteq> set seen \<union> path_id ` set (take k (t # ts))) =
        (set (pivot_refs (m_Components (m_GameObject t))) \<subseteq> set seen \<and>
         (\<forall>k<length ts. set (pivot_refs (m_Components (m_GameObject (ts ! k))))
          \<subseteq> set (seen @ [path_id t]) \<union> path_id ` set (take k ts)))"
    (is "?L = (?A \<and> ?B)")
  proof
    assume L: ?L
    from L[rule_format, of 0] have ?A by simp
    moreover have ?B
    proof (intro allI impI)
      fix k assume "k < length ts"
      with L[rule_format, of "Suc k"] show "set (pivot_refs (m_Components (m_GameObject (ts ! k))))
          \<subseteq> set (seen @ [path_id t]) \<union> path_id ` set (take k ts)" by auto
    qed
    ultimately show "?A \<and> ?B" ..
  next
    assume AB: "?A \<and> ?B"
    show ?L
    proof (intro allI impI)
      fix k assume k: "k < length (t # ts)"
      show "set (pivot_refs (m_Components (m_GameObject ((t # ts) ! k))))
          \<subseteq> set seen \<union> path_id ` set (take k (t # ts))"
      proof (cases k)
        case 0
        with AB show ?thesis by simp
      next
        case (Suc k')
        with k have "k' < length ts" by simp
        with AB have "set (pivot_refs (m_Components (m_GameObject (ts ! k'))))
          \<subseteq> set (seen @ [path_id t]) \<union> path_id ` set (take k' ts)" by blast
        with Suc show ?thesis by auto
      qed
    qed
  qed
  with Cons[of "seen @ [path_id t]"] show ?case by simp
qed

lemma trace_inv_dom: "trace_inv h ns (a, tbl) \<Longrightarrow> dom tbl = set (map path_id ns)"
  by (simp add: trace_inv_def dom_index_tbl del: set_map)

lemma dfs_ok_iff:
  "trace_inv h ns s \<Longrightarrow> (\<exists>s'. dfs h t par s = Inr s') = refs_ok (map path_id ns) (preorder t)"
  "trace_inv h ns s \<Longrightarrow>
     (\<exists>s'. dfs_children h ts i s = Inr s') = refs_ok (map path_id ns) (preorder_list ts)"
proof (induction h t par s and h ts i s arbitrary: ns and ns rule: dfs_dfs_children.induct)
  case (1 hash pid father gameObject lpos lrot lscale chs par s)
  obtain a tbl where s: "s = (a, tbl)" by (cases s)
  define a1 where "a1 = mark_skinned gameObject a"
  define path where "path = path_from_root_of (bones a1) par (m_Name gameObject)"
  define t where "t = TransformNode pid father gameObject lpos lrot lscale chs"
  have b1: "bones a1 = bones a" by (simp add: a1_def)
  from "1.prems" s have inv: "trace_inv hash ns (a, tbl)" by simp
  show ?case
  proof (cases "scan_components tbl (bones a1) (m_Components gameObject) None")
    case (Inl e)
    then have "\<not> set (pivot_refs (m_Components gameObject)) \<subseteq> dom tbl"
      using scan_components_ok[of tbl "bones a1" "m_Components gameObject" None] by simp
    with Inl show ?thesis
      using trace_inv_dom[OF inv] s by (simp add: a1_def Let_def)
  next
    case (Inr bp)
    then have sub: "set (pivot_refs (m_Components gameObject)) \<subseteq> dom tbl"
      using scan_components_ok[of tbl "bones a1" "m_Components gameObject" None] by auto
    have inv2: "trace_inv hash (ns @ [t])
       (add_bone hash pid (m_Name gameObject) lpos lrot lscale par path bp (a1, tbl))"
      using trace_inv_step[OF inv, of gameObject bp pid father lpos lrot lscale chs par] Inr b1
      by (simp add: a1_def path_def t_def)
    have sc': "scan_components tbl (bones a) (m_Components gameObject) None = Inr bp"
      using Inr b1 by simp
    have unfold: "dfs hash (TransformNode pid father gameObject lpos lrot lscale chs) par s =
        dfs_children hash chs (length (bones a1))
          (add_bone hash pid (m_Name gameObject) lpos lrot lscale par path bp (a1, tbl))"
      unfolding s by (simp add: Let_def sc' a1_def path_def)
    from "1.IH"[OF s[symmetric] refl a1_def path_def Inr inv2]
    show ?thesis
      unfolding unfold using sub trace_inv_dom[OF inv]
      by (simp add: t_def)
  qed
next
  case (2 hash i s)
  then show ?case by simp
next
  case (3 hash c cs i s)
  show ?case
  proof (cases "dfs hash c (Some i) s")
    case (Inl e)
    with "3.IH"(1)[OF "3.prems"] show ?thesis by (simp add: refs_ok_append)
  next
    case (Inr s1)
    from trace_inv_dfs[OF "3.prems" Inr] have inv1: "trace_inv hash (ns @ preorder c) s1" .
    from "3.IH"(2)[OF Inr inv1] "3.IH"(1)[OF "3.prems"] Inr
    show ?thesis by (auto simp: refs_ok_append)
  qed
qed

lemma scan_components_pivot:
  "scan_components tbl bs cs acc = Inr r \<Longrightarrow> filter recognized cs \<noteq> [] \<Longrightarrow>
   pivotNode (read_typetree (last (filter recognized cs))) = Some P \<Longrightarrow>
   \<exists>j bp. tbl P = Some j \<and> r = Some bp \<and> pivot bp = Some (name (bs ! j))"
proof (induction cs arbitrary: acc)
  case Nil
  then show ?case by simp
next
  case (Cons c cs)
  show ?case
  proof (cases "filter recognized cs = []")
    case True
    then have nr: "\<forall>c\<in>set cs. \<not> recognized c" by (simp add: filter_empty_conv)
    have keep: "scan_components tbl bs cs acc' = Inr acc'" for acc'
      using nr by (induction cs arbitrary: acc') (auto simp: recognized_def Let_def split: option.splits)
    from Cons.prems True have rc: "recognized c" and pv: "pivotNode (read_typetree c) = Some P"
      by (auto split: if_splits)
    from rc obtain n ty where "c_type c = MonoBehaviour" "m_Script c = Some n" "phy_type_of n = Some ty"
      by (auto simp: recognized_def split: option.splits)
    with Cons.prems(1) pv keep show ?thesis
      by (auto simp: Let_def split: option.splits)
  next
    case False
    then have l: "last (filter recognized (c # cs)) = last (filter recognized cs)" by simp
    from Cons.prems(1) obtain acc' where "scan_components tbl bs cs acc' = Inr r"
      by (auto simp: Let_def split: option.splits if_splits)
    from Cons.IH[OF this False] Cons.prems(3) l show ?thesis by simp
  qed
qed

lemma build_armature_facts:
  assumes "build_armature h r = Inr a"
  shows "wf_store (bones a)" "root a = Some 0" "\<exists>tbl. trace_inv h (preorder r) (a, tbl)"
proof -
  let ?s0 = "(new_Armature (m_Name (m_GameObject r)), Map.empty :: path_id \<rightharpoonup> nat)"
  from assms obtain tbl where d: "dfs h r None ?s0 = Inr (a, tbl)"
    by (auto simp: build_armature_def split: sum.splits)
  have wf0: "wf_store (bones (fst ?s0))" by (simp add: wf_store_def new_Armature_def)
  from dfs_wf(1)[of ?s0 None h r "(a, tbl)"] wf0 d
  show "wf_store (bones a)" "root a = Some 0" by (simp_all add: new_Armature_def)
  from trace_inv_dfs[OF trace_inv_init d] show "\<exists>tbl. trace_inv h (preorder r) (a, tbl)"
    by auto
qed

lemma build_armature_skinned:
  "build_armature h r = Inr a \<Longrightarrow> (skinned_mesh_gameobject a \<noteq> None) = has_skinned r"
  using build_armature_facts(3)[of h r a]
  by (auto simp: trace_inv_def has_skinned_def list_ex_iff)

lemma collect_armatures_eq:
  "collect_armatures h rs acc = Inr arms \<Longrightarrow>
     map Inr arms = map Inr acc @ map (build_armature h) (filter has_skinned rs)"
proof (induction rs arbitrary: acc)
  case Nil
  then show ?case by simp
next
  case (Cons r rs)
  from Cons.prems obtain a where b: "build_armature h r = Inr a"
    and c: "collect_armatures h rs
              (if skinned_mesh_gameobject a \<noteq> None then acc @ [a] else acc) = Inr arms"
    by (auto split: sum.splits)
  from Cons.IH[OF c] build_armature_skinned[OF b] b show ?case
    by (cases "has_skinned r") simp_all
qed

lemma search_env_meshes_built:
  assumes "search_env_meshes h objects = Inr (statics, arms)" "a \<in> set arms"
  shows "\<exists>r\<in>set (transform_roots objects). has_skinned r \<and> build_armature h r = Inr a"
proof -
  from assms(1) have "collect_armatures h (transform_roots objects) [] = Inr arms"
    by (auto simp: search_env_meshes_def split: sum.splits)
  from collect_armatures_eq[OF this]
  have "map Inr arms = map (build_armature h) (filter has_skinned (transform_roots objects))"
    by simp
  moreover from assms(2) have "Inr a \<in> set (map Inr arms :: (py_error + Armature) list)" by simp
  ultimately have "Inr a \<in> set (map (build_armature h) (filter has_skinned (transform_roots objects)))"
    by simp
  then show ?thesis by auto
qed

lemma scenario_build:
  "build_armature h scenario_root =
     Inr \<lparr>arm_name = ''Position'', skinned_mesh_gameobject = Some (skinned_object ''Spine''),
          root = Some 0,
          bone_path_hash_tbl = [h '''' \<mapsto> 0, h ''Hips'' \<mapsto> 1, h ''Hips/Spine'' \<mapsto> 2],
          bone_name_tbl = [''Position'' \<mapsto> 0, ''Hips'' \<mapsto> 1, ''Spine'' \<mapsto> 2],
          bones = scenario_bones\<rparr>"
  by (simp add: build_armature_def scenario_root_def scenario_hips_def scenario_spine_def node_def
      plain_object_def skinned_object_def new_Armature_def mark_skinned_def truthy_def
      path_from_root_of_def add_bone_def link_bone_def Let_def scenario_bones_def plain_bone_def
      numeral_2_eq_2)

lemma scenario_has_skinned: "has_skinned scenario_root"
  by (simp add: has_skinned_def scenario_root_def scenario_hips_def scenario_spine_def node_def
      skinned_object_def truthy_def)

lemma scenario_search:
  "search_env_meshes h scenario_objects = Inr ([], [scenario_armature h])"
  by (simp add: search_env_meshes_def scenario_objects_def scenario_build scenario_armature_def
      plain_object_def truthy_def)
    (simp add: scenario_root_def scenario_hips_def scenario_spine_def node_def)

text \<open>
  Claim C1, as the code has it. For every armature returned by \<open>search_env_meshes\<close>, the
  path of the root bone is the empty string (not the root's name); the path of a bone whose
  parent has the empty path is the bone's own name; the path of every other bone is the
  parent's path, the separator \<^verbatim>\<open>/\<close> and the bone's name. For the forest
  Position, Hips, Spine the armature has the root named Position, three names in
  \<open>bone_name_tbl\<close>, and \<open>bone_path_hash_tbl\<close> has exactly the keys
  \<open>hash ''''\<close>, \<open>hash ''Hips''\<close> and \<open>hash ''Hips/Spine''\<close>, for every hash function.
\<close>

theorem C1_paths:
  "(\<forall>statics armatures a i.
      search_env_meshes hash objects = Inr (statics, armatures) \<longrightarrow>
      a \<in> set armatures \<longrightarrow> i < length (bones a) \<longrightarrow>
      global_path (bones a ! i) =
        (case parent (bones a ! i) of
           None \<Rightarrow> ''''
         | Some p \<Rightarrow>
             (if global_path (bones a ! p) = '''' then name (bones a ! i)
              else global_path (bones a ! p) @ ''/'' @ name (bones a ! i)))) \<and>
   (\<exists>a. search_env_meshes hash scenario_objects = Inr ([], [a]) \<and>
        root a = Some 0 \<and> name (bones a ! 0) = ''Position'' \<and>
        dom (bone_name_tbl a) = {''Position'', ''Hips'', ''Spine''} \<and>
        dom (bone_path_hash_tbl a) = {hash '''', hash ''Hips'', hash ''Hips/Spine''})"
proof (intro conjI allI impI)
  fix statics armatures a i
  assume s: "search_env_meshes hash objects = Inr (statics, armatures)"
    and a: "a \<in> set armatures" and i: "i < length (bones a)"
  from search_env_meshes_built[OF s a] obtain r where "build_armature hash r = Inr a" by blast
  from build_armature_facts(1)[OF this] i
  have "global_path (bones a ! i) =
      path_from_root_of (bones a) (parent (bones a ! i)) (name (bones a ! i))"
    by (simp add: wf_store_def)
  then show "global_path (bones a ! i) =
        (case parent (bones a ! i) of
           None \<Rightarrow> ''''
         | Some p \<Rightarrow>
             (if global_path (bones a ! p) = '''' then name (bones a ! i)
              else global_path (bones a ! p) @ ''/'' @ name (bones a ! i)))"
    by (simp add: path_from_root_of_def split: option.splits)
next
  have "dom (bone_name_tbl (scenario_armature hash)) = {''Position'', ''Hips'', ''Spine''}"
    by (auto simp: scenario_armature_def)
  moreover have "dom (bone_path_hash_tbl (scenario_armature hash)) =
      {hash '''', hash ''Hips'', hash ''Hips/Spine''}"
    by (auto simp: scenario_armature_def)
  ultimately show "\<exists>a. search_env_meshes hash scenario_objects = Inr ([], [a]) \<and>
        root a = Some 0 \<and> name (bones a ! 0) = ''Position'' \<and>
        dom (bone_name_tbl a) = {''Position'', ''Hips'', ''Spine''} \<and>
        dom (bone_path_hash_tbl a) = {hash '''', hash ''Hips'', hash ''Hips/Spine''}"
    using scenario_search[of hash]
    by (intro exI[of _ "scenario_armature hash"])
      (simp add: scenario_armature_def scenario_bones_def plain_bone_def)
qed

text \<open>C1 at the concrete forest, with the length of a string as its hash.\<close>

theorem C1_paths_witness:
  "search_env_meshes scenario_hash scenario_objects = Inr ([], [scenario_armature scenario_hash]) \<and>
   global_path (bones (scenario_armature scenario_hash) ! 0) = '''' \<and>
   global_path (bones (scenario_armature scenario_hash) ! 1) = ''Hips'' \<and>
   global_path (bones (scenario_armature scenario_hash) ! 2) = ''Hips/Spine''"
proof -
  have s: "search_env_meshes scenario_hash scenario_objects =
      Inr ([], [scenario_armature scenario_hash])"
    by (rule scenario_search)
  have m: "scenario_armature scenario_hash \<in> set [scenario_armature scenario_hash]" by simp
  have l: "length (bones (scenario_armature scenario_hash)) = 3"
    by (simp add: scenario_armature_def scenario_bones_def)
  note t = C1_paths[of scenario_hash scenario_objects, THEN conjunct1, rule_format, OF s m]
  from t[of 0] t[of 1] t[of 2] l s show ?thesis
    by (simp add: scenario_armature_def scenario_bones_def plain_bone_def)
qed

text \<open>
  Claim C1 as stated fails at the same forest: the path of the root bone Position is not
  its name, the path of Hips is not the root's path joined to \<^verbatim>\<open>Hips\<close>, and the keys
  of \<open>bone_path_hash_tbl\<close> are not those of Position, Position/Hips and
  Position/Hips/Spine.
\<close>

theorem C1_root_path_counterexample:
  "search_env_meshes scenario_hash scenario_objects = Inr ([], [scenario_armature scenario_hash]) \<and>
   root (scenario_armature scenario_hash) = Some 0 \<and>
   name (bones (scenario_armature scenario_hash) ! 0) = ''Position'' \<and>
   global_path (bones (scenario_armature scenario_hash) ! 0) \<noteq> ''Position'' \<and>
   global_path (bones (scenario_armature scenario_hash) ! 1) \<noteq>
     global_path (bones (scenario_armature scenario_hash) ! 0) @ ''/'' @
       name (bones (scenario_armature scenario_hash) ! 1) \<and>
   dom (bone_path_hash_tbl (scenario_armature scenario_hash)) \<noteq>
     {scenario_hash ''Position'', scenario_hash ''Position/Hips'',
      scenario_hash ''Position/Hips/Spine''}"
proof -
  have d: "scenario_hash [] \<in> dom (bone_path_hash_tbl (scenario_armature scenario_hash))"
    by (simp add: scenario_armature_def)
  have n: "scenario_hash [] \<notin> {scenario_hash ''Position'', scenario_hash ''Position/Hips'',
      scenario_hash ''Position/Hips/Spine''}"
    by (simp add: scenario_hash_def)
  from d n have "dom (bone_path_hash_tbl (scenario_armature scenario_hash)) \<noteq>
     {scenario_hash ''Position'', scenario_hash ''Position/Hips'',
      scenario_hash ''Position/Hips/Spine''}"
    by blast
  moreover have "search_env_meshes scenario_hash scenario_objects =
      Inr ([], [scenario_armature scenario_hash])"
    by (rule scenario_search)
  ultimately show ?thesis
    by (simp add: scenario_armature_def scenario_bones_def plain_bone_def)
qed

lemma trace_inv_length: "trace_inv h ns (a, tbl) \<Longrightarrow> length (bones a) = length ns"
proof -
  assume "trace_inv h ns (a, tbl)"
  then have "map name (bones a) = map (\<lambda>t. m_Name (m_GameObject t)) ns"
    by (simp add: trace_inv_def)
  then show ?thesis by (metis length_map)
qed

text \<open>
  Claim C2. Every armature returned by \<open>search_env_meshes\<close> has exactly one bone without
  a parent: the bone at address 0, which is \<open>root\<close>. The parent of every other bone has a
  smaller address, so following the parent links ends at the root and there is no cycle.
  A bone \<open>j\<close> is in the child list of bone \<open>i\<close> exactly when \<open>i\<close> is its parent, and no
  child list holds a bone twice: each non-root bone is in exactly one child list, once.
\<close>

theorem C2_tree:
  "search_env_meshes hash objects = Inr (statics, armatures) \<Longrightarrow> a \<in> set armatures \<Longrightarrow>
     root a = Some 0 \<and> 0 < length (bones a) \<and>
     (\<forall>i<length (bones a). (parent (bones a ! i) = None) = (i = 0)) \<and>
     (\<forall>i<length (bones a). \<forall>p. parent (bones a ! i) = Some p \<longrightarrow> p < i) \<and>
     (\<forall>i<length (bones a). \<forall>j.
        (j \<in> set (children (bones a ! i))) = (j < length (bones a) \<and> parent (bones a ! j) = Some i)) \<and>
     (\<forall>i<length (bones a). distinct (children (bones a ! i)))"
proof -
  assume s: "search_env_meshes hash objects = Inr (statics, armatures)" and a: "a \<in> set armatures"
  from search_env_meshes_built[OF s a] obtain r where b: "build_armature hash r = Inr a" by blast
  note wf = build_armature_facts(1)[OF b] and rt = build_armature_facts(2)[OF b]
  from build_armature_facts(3)[OF b] obtain tbl where "trace_inv hash (preorder r) (a, tbl)" ..
  then have "length (bones a) = length (preorder r)"
    by (rule trace_inv_length)
  moreover have "preorder r \<noteq> []" by (cases r) simp
  ultimately have len: "0 < length (bones a)" by simp
  from wf have w1: "\<And>i. i < length (bones a) \<Longrightarrow>
      (case parent (bones a ! i) of None \<Rightarrow> i = 0 | Some p \<Rightarrow> p < i)"
    by (simp add: wf_store_def)
  have c1: "\<forall>i<length (bones a). (parent (bones a ! i) = None) = (i = 0)"
    using w1 by (fastforce split: option.splits)
  have c2: "\<forall>i<length (bones a). \<forall>p. parent (bones a ! i) = Some p \<longrightarrow> p < i"
    using w1 by (fastforce split: option.splits)
  from wf rt len c1 c2 show ?thesis by (simp add: wf_store_def)
qed

text \<open>
  C2 at the forest Position, Hips, Spine.
\<close>

theorem C2_tree_witness:
  "search_env_meshes scenario_hash scenario_objects = Inr ([], [scenario_armature scenario_hash]) \<and>
   root (scenario_armature scenario_hash) = Some 0 \<and>
   map parent (bones (scenario_armature scenario_hash)) = [None, Some 0, Some 1] \<and>
   map children (bones (scenario_armature scenario_hash)) = [[1], [2], []] \<and>
   map (\<lambda>b. distinct (children b)) (bones (scenario_armature scenario_hash)) =
     [True, True, True]"
proof -
  have s: "search_env_meshes scenario_hash scenario_objects =
      Inr ([], [scenario_armature scenario_hash])"
    by (rule scenario_search)
  have m: "scenario_armature scenario_hash \<in> set [scenario_armature scenario_hash]" by simp
  from C2_tree[OF s m] s show ?thesis
    by (simp add: scenario_armature_def scenario_bones_def plain_bone_def)
qed

text \<open>
  Claim C3. The armatures returned by \<open>search_env_meshes\<close> are, in order, the armatures
  built for exactly those root transforms whose subtree has a GameObject with a skinned
  mesh renderer; the other roots contribute nothing.
\<close>

theorem C3_skinned_only:
  "search_env_meshes hash objects = Inr (statics, armatures) \<Longrightarrow>
     map Inr armatures =
       map (build_armature hash)
         (filter (\<lambda>r. \<exists>t\<in>set (preorder r). truthy (m_SkinnedMeshRenderer (m_GameObject t)))
            (transform_roots objects))"
proof -
  assume "search_env_meshes hash objects = Inr (statics, armatures)"
  then have "collect_armatures hash (transform_roots objects) [] = Inr armatures"
    by (auto simp: search_env_meshes_def split: sum.splits)
  from collect_armatures_eq[OF this] show ?thesis
    by (simp add: has_skinned_def[abs_def] list_ex_iff)
qed

lemma phy_type_of_names:
  "(phy_type_of n \<noteq> None) =
     (n \<in> {''SpringSphereCollider'', ''SpringCapsuleCollider'', ''SekaiSpringBone'', ''SpringManager''})"
  by (simp add: phy_type_of_def Let_def)

lemma recognized_names:
  "recognized c =
     (c_type c = MonoBehaviour \<and>
      (\<exists>n. m_Script c = Some n \<and>
         n \<in> {''SpringSphereCollider'', ''SpringCapsuleCollider'', ''SekaiSpringBone'', ''SpringManager''}))"
  unfolding recognized_def using phy_type_of_names
  by (cases "m_Script c") auto

lemma build_armature_ok_iff:
  "(\<exists>a. build_armature h r = Inr a) = refs_ok [] (preorder r)"
proof -
  have "(\<exists>a. build_armature h r = Inr a) =
        (\<exists>s'. dfs h r None (new_Armature (m_Name (m_GameObject r)), Map.empty) = Inr s')"
    by (auto simp: build_armature_def split: sum.splits)
  with dfs_ok_iff(1)[OF trace_inv_init[of h "m_Name (m_GameObject r)"], of r None]
  show ?thesis by simp
qed

lemma collect_armatures_ok:
  "(\<forall>r\<in>set rs. \<exists>a. build_armature h r = Inr a) \<Longrightarrow> \<exists>arms. collect_armatures h rs acc = Inr arms"
  by (induction rs arbitrary: acc) auto

lemma pivot_refs_Nil: "(\<forall>c\<in>set cs. \<not> recognized c) \<Longrightarrow> pivot_refs cs = []"
  by (simp add: pivot_refs_def filter_False List.map_filter_simps)

lemma search_env_meshes_ok:
  assumes "\<forall>r\<in>set (transform_roots objects). refs_ok [] (preorder r)"
  shows "\<exists>statics armatures. search_env_meshes h objects = Inr (statics, armatures)"
proof -
  from assms have "\<forall>r\<in>set (transform_roots objects). \<exists>a. build_armature h r = Inr a"
    by (simp add: build_armature_ok_iff)
  from collect_armatures_ok[OF this, of "[]"] show ?thesis
    by (auto simp: search_env_meshes_def)
qed

lemma build_armature_trace:
  assumes b: "build_armature h r = Inr a"
  shows "length (bones a) = length (preorder r)"
    and "map name (bones a) = map (\<lambda>t. m_Name (m_GameObject t)) (preorder r)"
    and "bone_name_tbl a = index_tbl (map name (bones a))"
    and "bone_path_hash_tbl a = index_tbl (map (\<lambda>b. h (global_path b)) (bones a))"
    and "\<And>k. k < length (preorder r) \<Longrightarrow>
           scan_components (index_tbl (map path_id (take k (preorder r)))) (bones a)
             (m_Components (m_GameObject (preorder r ! k))) None = Inr (physics (bones a ! k))"
proof -
  from build_armature_facts(3)[OF b] obtain tbl where t: "trace_inv h (preorder r) (a, tbl)" ..
  from trace_inv_length[OF t] show "length (bones a) = length (preorder r)" .
  from t show "map name (bones a) = map (\<lambda>t. m_Name (m_GameObject t)) (preorder r)"
    and "bone_name_tbl a = index_tbl (map name (bones a))"
    and "bone_path_hash_tbl a = index_tbl (map (\<lambda>b. h (global_path b)) (bones a))"
    and "\<And>k. k < length (preorder r) \<Longrightarrow>
           scan_components (index_tbl (map path_id (take k (preorder r)))) (bones a)
             (m_Components (m_GameObject (preorder r ! k))) None = Inr (physics (bones a ! k))"
    by (simp_all add: trace_inv_def)
qed

lemma build_armature_name:
  assumes b: "build_armature h r = Inr a" and i: "i < length (bones a)"
  shows "name (bones a ! i) = m_Name (m_GameObject (preorder r ! i))"
proof -
  have "name (bones a ! i) = map name (bones a) ! i" using i by simp
  also have "\<dots> = map (\<lambda>t. m_Name (m_GameObject t)) (preorder r) ! i"
    by (simp only: build_armature_trace(2)[OF b])
  also have "\<dots> = m_Name (m_GameObject (preorder r ! i))"
    using i build_armature_trace(1)[OF b] by simp
  finally show ?thesis .
qed

text \<open>
  Claim C5. A bone of a returned armature is the bone of the GameObject at the same
  position of the pre-order listing of its root, and it carries a physics descriptor exactly
  when that GameObject has a MonoBehaviour component with a script whose name is
  SpringSphereCollider, SpringCapsuleCollider, SekaiSpringBone or SpringManager. When no
  component of the forest is such a component, \<open>search_env_meshes\<close> returns without an
  error.
\<close>

theorem C5_descriptor:
  "(\<forall>statics armatures a.
      search_env_meshes hash objects = Inr (statics, armatures) \<longrightarrow> a \<in> set armatures \<longrightarrow>
      (\<exists>r\<in>set (transform_roots objects).
         build_armature hash r = Inr a \<and> length (bones a) = length (preorder r) \<and>
         (\<forall>i<length (bones a).
            name (bones a ! i) = m_Name (m_GameObject (preorder r ! i)) \<and>
            (physics (bones a ! i) \<noteq> None) =
              (\<exists>c\<in>set (m_Components (m_GameObject (preorder r ! i))).
                 c_type c = MonoBehaviour \<and>
                 (\<exists>n. m_Script c = Some n \<and>
                    n \<in> {''SpringSphereCollider'', ''SpringCapsuleCollider'',
                         ''SekaiSpringBone'', ''SpringManager''}))))) \<and>
   ((\<forall>r\<in>set (transform_roots objects). \<forall>t\<in>set (preorder r).
       \<forall>c\<in>set (m_Components (m_GameObject t)).
         \<not> (c_type c = MonoBehaviour \<and>
            (\<exists>n. m_Script c = Some n \<and>
               n \<in> {''SpringSphereCollider'', ''SpringCapsuleCollider'',
                    ''SekaiSpringBone'', ''SpringManager''}))) \<longrightarrow>
    (\<exists>statics armatures. search_env_meshes hash objects = Inr (statics, armatures)))"
proof (intro conjI allI impI)
  fix statics armatures a
  assume s: "search_env_meshes hash objects = Inr (statics, armatures)" and a: "a \<in> set armatures"
  from search_env_meshes_built[OF s a] obtain r where r: "r \<in> set (transform_roots objects)"
    and b: "build_armature hash r = Inr a" by blast
  have "(physics (bones a ! i) \<noteq> None) =
      (\<exists>c\<in>set (m_Components (m_GameObject (preorder r ! i))).
         c_type c = MonoBehaviour \<and>
         (\<exists>n. m_Script c = Some n \<and>
            n \<in> {''SpringSphereCollider'', ''SpringCapsuleCollider'',
                 ''SekaiSpringBone'', ''SpringManager''}))"
    if i: "i < length (bones a)" for i
  proof -
    from i build_armature_trace(1)[OF b] have "i < length (preorder r)" by simp
    from scan_components_None[OF build_armature_trace(5)[OF b this]]
    show ?thesis by (simp only: recognized_names simp_thms)
  qed
  with r b build_armature_trace(1)[OF b] build_armature_name[OF b]
  show "\<exists>r\<in>set (transform_roots objects).
         build_armature hash r = Inr a \<and> length (bones a) = length (preorder r) \<and>
         (\<forall>i<length (bones a).
            name (bones a ! i) = m_Name (m_GameObject (preorder r ! i)) \<and>
            (physics (bones a ! i) \<noteq> None) =
              (\<exists>c\<in>set (m_Components (m_GameObject (preorder r ! i))).
                 c_type c = MonoBehaviour \<and>
                 (\<exists>n. m_Script c = Some n \<and>
                    n \<in> {''SpringSphereCollider'', ''SpringCapsuleCollider'',
                         ''SekaiSpringBone'', ''SpringManager''})))"
    by blast
next
  assume n: "\<forall>r\<in>set (transform_roots objects). \<forall>t\<in>set (preorder r).
       \<forall>c\<in>set (m_Components (m_GameObject t)).
         \<not> (c_type c = MonoBehaviour \<and>
            (\<exists>n. m_Script c = Some n \<and>
               n \<in> {''SpringSphereCollider'', ''SpringCapsuleCollider'',
                    ''SekaiSpringBone'', ''SpringManager''}))"
  have "refs_ok [] (preorder r)" if r: "r \<in> set (transform_roots objects)" for r
  proof -
    have "pivot_refs (m_Components (m_GameObject (preorder r ! k))) = []"
      if "k < length (preorder r)" for k
    proof (rule pivot_refs_Nil)
      from that have "preorder r ! k \<in> set (preorder r)" by simp
      with n r show "\<forall>c\<in>set (m_Components (m_GameObject (preorder r ! k))). \<not> recognized c"
        unfolding recognized_names by blast
    qed
    then show ?thesis by (simp add: refs_ok_nth)
  qed
  then show "\<exists>statics armatures. search_env_meshes hash objects = Inr (statics, armatures)"
    by (intro search_env_meshes_ok) blast
qed

lemma set_pivot_refs:
  "set (pivot_refs cs) = {P. \<exists>c\<in>set cs. recognized c \<and> pivotNode (read_typetree c) = Some P}"
  by (induction cs) (auto simp: pivot_refs_def split: option.splits)

text \<open>
  Claim C4, for the traversal of one root. If a recognised script component of the node at
  pre-order position \<open>k\<close> has a \<^verbatim>\<open>pivotNode\<close> whose path id is not the path id of a node
  at a position before \<open>k\<close> (the node \<open>k\<close> itself does not count), the traversal raises
  KeyError. If the traversal returns and the descriptor of bone \<open>k\<close> comes from a component
  with pivot id \<open>P\<close>, then its pivot is the name of the bone of the last node before \<open>k\<close>
  with path id \<open>P\<close>.
\<close>

theorem C4_pivot_lookup:
  "(\<forall>k c n P.
      k < length (preorder r) \<longrightarrow>
      c \<in> set (m_Components (m_GameObject (preorder r ! k))) \<longrightarrow>
      c_type c = MonoBehaviour \<longrightarrow> m_Script c = Some n \<longrightarrow>
      n \<in> {''SpringSphereCollider'', ''SpringCapsuleCollider'', ''SekaiSpringBone'', ''SpringManager''} \<longrightarrow>
      pivotNode (read_typetree c) = Some P \<longrightarrow>
      P \<notin> path_id ` set (take k (preorder r)) \<longrightarrow>
      build_armature hash r = Inl KeyError) \<and>
   (\<forall>a k P.
      build_armature hash r = Inr a \<longrightarrow> k < length (preorder r) \<longrightarrow>
      filter recognized (m_Components (m_GameObject (preorder r ! k))) \<noteq> [] \<longrightarrow>
      pivotNode (read_typetree
         (last (filter recognized (m_Components (m_GameObject (preorder r ! k)))))) = Some P \<longrightarrow>
      (\<exists>j<k. path_id (preorder r ! j) = P \<and>
         (\<forall>j'<k. path_id (preorder r ! j') = P \<longrightarrow> j' \<le> j) \<and>
         name (bones a ! j) = m_Name (m_GameObject (preorder r ! j)) \<and>
         (\<exists>bp. physics (bones a ! k) = Some bp \<and> pivot bp = Some (name (bones a ! j)))))"
proof (intro conjI allI impI)
  fix k c n P
  assume k: "k < length (preorder r)"
    and c: "c \<in> set (m_Components (m_GameObject (preorder r ! k)))"
    and ty: "c_type c = MonoBehaviour" and sc: "m_Script c = Some n"
    and n: "n \<in> {''SpringSphereCollider'', ''SpringCapsuleCollider'', ''SekaiSpringBone'', ''SpringManager''}"
    and pv: "pivotNode (read_typetree c) = Some P"
    and P: "P \<notin> path_id ` set (take k (preorder r))"
  from ty sc n have "recognized c" unfolding recognized_names by blast
  with c pv have "P \<in> set (pivot_refs (m_Components (m_GameObject (preorder r ! k))))"
    by (auto simp: set_pivot_refs)
  with P k have "\<not> refs_ok [] (preorder r)"
    unfolding refs_ok_nth by auto
  then have "\<not> (\<exists>a. build_armature hash r = Inr a)"
    by (simp add: build_armature_ok_iff)
  then obtain e where "build_armature hash r = Inl e"
    by (cases "build_armature hash r") auto
  then show "build_armature hash r = Inl KeyError" by (simp add: build_armature_error)
next
  fix a k P
  assume b: "build_armature hash r = Inr a" and k: "k < length (preorder r)"
    and ne: "filter recognized (m_Components (m_GameObject (preorder r ! k))) \<noteq> []"
    and pv: "pivotNode (read_typetree
         (last (filter recognized (m_Components (m_GameObject (preorder r ! k)))))) = Some P"
  from scan_components_pivot[OF build_armature_trace(5)[OF b k] ne pv]
  obtain j bp where t: "index_tbl (map path_id (take k (preorder r))) P = Some j"
    and ph: "physics (bones a ! k) = Some bp" and pi: "pivot bp = Some (name (bones a ! j))"
    by auto
  from t k have j: "j < k" and pj: "path_id (preorder r ! j) = P"
    and mx: "\<forall>j'<k. path_id (preorder r ! j') = P \<longrightarrow> j' \<le> j"
    by (auto simp: index_tbl_Some)
  from j k build_armature_trace(1)[OF b] have "j < length (bones a)" by simp
  from build_armature_name[OF b this] j pj mx ph pi
  show "\<exists>j<k. path_id (preorder r ! j) = P \<and>
         (\<forall>j'<k. path_id (preorder r ! j') = P \<longrightarrow> j' \<le> j) \<and>
         name (bones a ! j) = m_Name (m_GameObject (preorder r ! j)) \<and>
         (\<exists>bp. physics (bones a ! k) = Some bp \<and> pivot bp = Some (name (bones a ! j)))"
    by blast
qed

lemma index_tbl_last:
  assumes "i < length ks"
  shows "\<exists>j. index_tbl ks (ks ! i) = Some j \<and> i \<le> j \<and> j < length ks \<and> ks ! j = ks ! i \<and>
     (\<forall>j'<length ks. ks ! j' = ks ! i \<longrightarrow> j' \<le> j)"
proof -
  from assms have "ks ! i \<in> dom (index_tbl ks)" by (simp add: dom_index_tbl)
  then obtain j where j: "index_tbl ks (ks ! i) = Some j" by blast
  with assms show ?thesis by (auto simp: index_tbl_Some)
qed

text \<open>
  Claim C10. The bones of a returned armature are stored in pre-order of visit. For every
  bone \<open>i\<close>, \<open>bone_name_tbl\<close> maps its name to the last bone \<open>j\<close> with that name, and
  \<open>bone_path_hash_tbl\<close> maps the hash of its path to the last bone with that hash: an earlier
  entry is overwritten. Equal names raise nothing: a forest without pivot references is
  always built.
\<close>

theorem C10_later_bone_wins:
  "(\<forall>statics armatures a.
      search_env_meshes hash objects = Inr (statics, armatures) \<longrightarrow> a \<in> set armatures \<longrightarrow>
      (\<exists>r\<in>set (transform_roots objects).
         build_armature hash r = Inr a \<and>
         map name (bones a) = map (\<lambda>t. m_Name (m_GameObject t)) (preorder r)) \<and>
      (\<forall>i<length (bones a).
         (\<exists>j. bone_name_tbl a (name (bones a ! i)) = Some j \<and> i \<le> j \<and> j < length (bones a) \<and>
              name (bones a ! j) = name (bones a ! i) \<and>
              (\<forall>j'<length (bones a). name (bones a ! j') = name (bones a ! i) \<longrightarrow> j' \<le> j)) \<and>
         (\<exists>j. bone_path_hash_tbl a (hash (global_path (bones a ! i))) = Some j \<and> i \<le> j \<and>
              j < length (bones a) \<and>
              hash (global_path (bones a ! j)) = hash (global_path (bones a ! i)) \<and>
              (\<forall>j'<length (bones a).
                 hash (global_path (bones a ! j')) = hash (global_path (bones a ! i)) \<longrightarrow> j' \<le> j)))) \<and>
   ((\<forall>r\<in>set (transform_roots objects). \<forall>t\<in>set (preorder r).
       pivot_refs (m_Components (m_GameObject t)) = []) \<longrightarrow>
    (\<exists>statics armatures. search_env_meshes hash objects = Inr (statics, armatures)))"
proof (intro conjI allI impI)
  fix statics armatures a
  assume s: "search_env_meshes hash objects = Inr (statics, armatures)" and a: "a \<in> set armatures"
  from search_env_meshes_built[OF s a] obtain r where r: "r \<in> set (transform_roots objects)"
    and b: "build_armature hash r = Inr a" by blast
  from r b build_armature_trace(2)[OF b]
  show "\<exists>r\<in>set (transform_roots objects).
         build_armature hash r = Inr a \<and>
         map name (bones a) = map (\<lambda>t. m_Name (m_GameObject t)) (preorder r)"
    by blast
  fix i assume i: "i < length (bones a)"
  from index_tbl_last[of i "map name (bones a)"] i
  show "\<exists>j. bone_name_tbl a (name (bones a ! i)) = Some j \<and> i \<le> j \<and> j < length (bones a) \<and>
              name (bones a ! j) = name (bones a ! i) \<and>
              (\<forall>j'<length (bones a). name (bones a ! j') = name (bones a ! i) \<longrightarrow> j' \<le> j)"
    by (auto simp: build_armature_trace(3)[OF b])
  from index_tbl_last[of i "map (\<lambda>b. hash (global_path b)) (bones a)"] i
  show "\<exists>j. bone_path_hash_tbl a (hash (global_path (bones a ! i))) = Some j \<and> i \<le> j \<and>
              j < length (bones a) \<and>
              hash (global_path (bones a ! j)) = hash (global_path (bones a ! i)) \<and>
              (\<forall>j'<length (bones a).
                 hash (global_path (bones a ! j')) = hash (global_path (bones a ! i)) \<longrightarrow> j' \<le> j)"
    by (auto simp: build_armature_trace(4)[OF b])
next
  assume n: "\<forall>r\<in>set (transform_roots objects). \<forall>t\<in>set (preorder r).
       pivot_refs (m_Components (m_GameObject t)) = []"
  have "refs_ok [] (preorder r)" if r: "r \<in> set (transform_roots objects)" for r
    using n r by (simp add: refs_ok_nth)
  then show "\<exists>statics armatures. search_env_meshes hash objects = Inr (statics, armatures)"
    by (intro search_env_meshes_ok) blast
qed

lemmas scenario_defs =
  scenario_root_def scenario_hips_def scenario_spine_def node_def
  plain_object_def skinned_object_def stage_root_def hair_a_def hair_b_def hair_position_def
  hair_root_def forward_root_def physics_object_def script_component_def spring_fields_def

lemmas run_defs =
  build_armature_def new_Armature_def mark_skinned_def truthy_def
  path_from_root_of_def add_bone_def link_bone_def Let_def phy_type_of_def from_dict_def

lemma stage_build:
  "\<exists>a. build_armature h stage_root = Inr a \<and> skinned_mesh_gameobject a = None"
  by (simp add: scenario_defs run_defs)

lemma hair_build: "build_armature h hair_root = Inr (hair_armature h)"
  by (simp add: scenario_defs run_defs hair_armature_def hair_bones_def plain_bone_def
      physics_bone_def spring_physics_def numeral_2_eq_2 numeral_3_eq_3)

lemma forward_build: "build_armature h forward_root = Inl KeyError"
  by (simp add: scenario_defs run_defs)

lemma two_root_search:
  "search_env_meshes h two_root_objects = Inr ([], [scenario_armature h])"
proof -
  from stage_build[of h] obtain a where
    "build_armature h stage_root = Inr a" "skinned_mesh_gameobject a = None" by blast
  moreover have "m_Father stage_root = 0" "m_Father scenario_root = 0"
    by (simp_all add: scenario_defs)
  ultimately show ?thesis
    by (simp add: search_env_meshes_def two_root_objects_def scenario_build scenario_armature_def)
qed

lemma hair_search:
  "search_env_meshes h [TransformObj hair_root] = Inr ([], [hair_armature h])"
proof -
  have "m_Father hair_root = 0" by (simp add: scenario_defs)
  then show ?thesis
    by (simp add: search_env_meshes_def hair_build) (simp add: hair_armature_def)
qed

lemma preorder_hair_root: "preorder hair_root = [hair_root, hair_position, hair_a, hair_b]"
  by (simp add: hair_root_def hair_position_def hair_a_def hair_b_def node_def)

lemma preorder_forward_root:
  "preorder forward_root =
     [forward_root,
      node 2 1 (physics_object ''Hair''
         [script_component ''SekaiSpringBone'' (spring_fields (Some 3))]) [],
      node 3 1 (plain_object ''Pivot'') []]"
  by (simp add: forward_root_def node_def)

text \<open>
  C3 at two roots: the root Stage has no skinned GameObject and gives no armature, the root
  Position gives one.
\<close>

theorem C3_skinned_only_witness:
  "search_env_meshes scenario_hash two_root_objects = Inr ([], [scenario_armature scenario_hash]) \<and>
   transform_roots two_root_objects = [stage_root, scenario_root] \<and>
   [Inr (scenario_armature scenario_hash)] =
     map (build_armature scenario_hash)
       (filter (\<lambda>r. \<exists>t\<in>set (preorder r). truthy (m_SkinnedMeshRenderer (m_GameObject t)))
          [stage_root, scenario_root])"
proof -
  have s: "search_env_meshes scenario_hash two_root_objects =
      Inr ([], [scenario_armature scenario_hash])"
    by (rule two_root_search)
  have r: "transform_roots two_root_objects = [stage_root, scenario_root]"
    by (simp add: two_root_objects_def scenario_defs)
  from C3_skinned_only[OF s] s r show ?thesis by simp
qed

text \<open>
  C5 at a forest whose two Hair nodes carry a SekaiSpringBone script, one of them after a
  script of another name; and at the forest Position, Hips, Spine, which has no component.
\<close>

theorem C5_descriptor_witness:
  "search_env_meshes scenario_hash [TransformObj hair_root] =
     Inr ([], [hair_armature scenario_hash]) \<and>
   map (\<lambda>b. physics b \<noteq> None) (bones (hair_armature scenario_hash)) = [False, False, True, True] \<and>
   (\<exists>r\<in>set (transform_roots [TransformObj hair_root]).
      build_armature scenario_hash r = Inr (hair_armature scenario_hash) \<and>
      length (bones (hair_armature scenario_hash)) = length (preorder r) \<and>
      (\<forall>i<length (bones (hair_armature scenario_hash)).
         name (bones (hair_armature scenario_hash) ! i) = m_Name (m_GameObject (preorder r ! i)) \<and>
         (physics (bones (hair_armature scenario_hash) ! i) \<noteq> None) =
           (\<exists>c\<in>set (m_Components (m_GameObject (preorder r ! i))).
              c_type c = MonoBehaviour \<and>
              (\<exists>n. m_Script c = Some n \<and>
                 n \<in> {''SpringSphereCollider'', ''SpringCapsuleCollider'',
                      ''SekaiSpringBone'', ''SpringManager''})))) \<and>
   (\<exists>statics armatures.
      search_env_meshes scenario_hash scenario_objects = Inr (statics, armatures))"
proof -
  have s: "search_env_meshes scenario_hash [TransformObj hair_root] =
      Inr ([], [hair_armature scenario_hash])"
    by (rule hair_search)
  have m: "hair_armature scenario_hash \<in> set [hair_armature scenario_hash]" by simp
  have p: "map (\<lambda>b. physics b \<noteq> None) (bones (hair_armature scenario_hash)) =
      [False, False, True, True]"
    by (simp add: hair_armature_def hair_bones_def plain_bone_def physics_bone_def)
  have n: "\<forall>r\<in>set (transform_roots scenario_objects). \<forall>t\<in>set (preorder r).
       \<forall>c\<in>set (m_Components (m_GameObject t)).
         \<not> (c_type c = MonoBehaviour \<and>
            (\<exists>n. m_Script c = Some n \<and>
               n \<in> {''SpringSphereCollider'', ''SpringCapsuleCollider'',
                    ''SekaiSpringBone'', ''SpringManager''}))"
    by (simp add: scenario_objects_def scenario_defs)
  from C5_descriptor[of scenario_hash "[TransformObj hair_root]", THEN conjunct1, rule_format, OF s m]
    C5_descriptor[of scenario_hash scenario_objects, THEN conjunct2, THEN mp, OF n]
    s p
  show ?thesis by blast
qed

text \<open>
  C4 at a forest whose Hair node refers to the node after it (KeyError), and at the forest
  whose first Hair node refers to Position, visited before it.
\<close>

theorem C4_pivot_lookup_witness:
  "build_armature scenario_hash forward_root = Inl KeyError \<and>
   build_armature scenario_hash hair_root = Inr (hair_armature scenario_hash) \<and>
   physics (bones (hair_armature scenario_hash) ! 2) = Some (spring_physics ''Position'') \<and>
   (\<exists>j<2. path_id (preorder hair_root ! j) = 2 \<and>
      (\<forall>j'<2. path_id (preorder hair_root ! j') = 2 \<longrightarrow> j' \<le> j) \<and>
      name (bones (hair_armature scenario_hash) ! j) = m_Name (m_GameObject (preorder hair_root ! j)) \<and>
      (\<exists>bp. physics (bones (hair_armature scenario_hash) ! 2) = Some bp \<and>
         pivot bp = Some (name (bones (hair_armature scenario_hash) ! j))))"
proof -
  let ?c = "script_component ''SekaiSpringBone'' (spring_fields (Some 3))"
  have k: "1 < length (preorder forward_root)" by (simp add: preorder_forward_root)
  have c: "?c \<in> set (m_Components (m_GameObject (preorder forward_root ! 1)))"
    by (simp add: preorder_forward_root node_def physics_object_def)
  have ty: "c_type ?c = MonoBehaviour" and sc: "m_Script ?c = Some ''SekaiSpringBone''"
    and pv: "pivotNode (read_typetree ?c) = Some 3"
    by (simp_all add: script_component_def spring_fields_def)
  have nm: "''SekaiSpringBone'' \<in> {''SpringSphereCollider'', ''SpringCapsuleCollider'',
      ''SekaiSpringBone'', ''SpringManager''}" by simp
  have P: "(3::int) \<notin> path_id ` set (take 1 (preorder forward_root))"
    by (simp add: preorder_forward_root forward_root_def node_def)
  note f = C4_pivot_lookup[of forward_root scenario_hash, THEN conjunct1, rule_format,
      OF k c ty sc nm pv P]
  have b: "build_armature scenario_hash hair_root = Inr (hair_armature scenario_hash)"
    by (rule hair_build)
  have k2: "2 < length (preorder hair_root)" by (simp add: preorder_hair_root)
  have fl: "filter recognized (m_Components (m_GameObject (preorder hair_root ! 2))) =
      [script_component ''SekaiSpringBone'' (spring_fields (Some 2))]"
    by (simp add: preorder_hair_root hair_a_def node_def physics_object_def recognized_def
        script_component_def phy_type_of_def Let_def)
  have ne: "filter recognized (m_Components (m_GameObject (preorder hair_root ! 2))) \<noteq> []"
    by (simp add: fl)
  have pv2: "pivotNode (read_typetree
      (last (filter recognized (m_Components (m_GameObject (preorder hair_root ! 2)))))) = Some 2"
    by (simp add: fl script_component_def spring_fields_def)
  note g = C4_pivot_lookup[of hair_root scenario_hash, THEN conjunct2, rule_format, OF b k2 ne pv2]
  have ph: "physics (bones (hair_armature scenario_hash) ! 2) = Some (spring_physics ''Position'')"
    by (simp add: hair_armature_def hair_bones_def physics_bone_def plain_bone_def)
  from f b ph g show ?thesis by blast
qed

text \<open>
  C10 at the forest with two bones named Hair, at the same path: both tables map to the
  second one.
\<close>

theorem C10_later_bone_wins_witness:
  "search_env_meshes scenario_hash [TransformObj hair_root] =
     Inr ([], [hair_armature scenario_hash]) \<and>
   map name (bones (hair_armature scenario_hash)) = [''Model'', ''Position'', ''Hair'', ''Hair''] \<and>
   bone_name_tbl (hair_armature scenario_hash) ''Hair'' = Some 3 \<and>
   bone_path_hash_tbl (hair_armature scenario_hash) (scenario_hash ''Position/Hair'') = Some 3 \<and>
   (\<exists>j. bone_name_tbl (hair_armature scenario_hash)
          (name (bones (hair_armature scenario_hash) ! 2)) = Some j \<and> 2 \<le> j \<and>
        j < length (bones (hair_armature scenario_hash)) \<and>
        name (bones (hair_armature scenario_hash) ! j) =
          name (bones (hair_armature scenario_hash) ! 2)) \<and>
   (\<exists>statics armatures.
      search_env_meshes scenario_hash scenario_objects = Inr (statics, armatures))"
proof -
  have s: "search_env_meshes scenario_hash [TransformObj hair_root] =
      Inr ([], [hair_armature scenario_hash])"
    by (rule hair_search)
  have m: "hair_armature scenario_hash \<in> set [hair_armature scenario_hash]" by simp
  have i: "2 < length (bones (hair_armature scenario_hash))"
    by (simp add: hair_armature_def hair_bones_def)
  have e: "map name (bones (hair_armature scenario_hash)) = [''Model'', ''Position'', ''Hair'', ''Hair'']"
    "bone_name_tbl (hair_armature scenario_hash) ''Hair'' = Some 3"
    "bone_path_hash_tbl (hair_armature scenario_hash) (scenario_hash ''Position/Hair'') = Some 3"
    by (simp_all add: hair_armature_def hair_bones_def physics_bone_def plain_bone_def
        scenario_hash_def)
  have n: "\<forall>r\<in>set (transform_roots scenario_objects). \<forall>t\<in>set (preorder r).
       pivot_refs (m_Components (m_GameObject t)) = []"
    by (simp add: scenario_objects_def scenario_defs pivot_refs_def)
  note t = C10_later_bone_wins[of scenario_hash "[TransformObj hair_root]", THEN conjunct1,
      rule_format, OF s m, THEN conjunct2, rule_format, OF i, THEN conjunct1]
  from t C10_later_bone_wins[of scenario_hash scenario_objects, THEN conjunct2, THEN mp, OF n]
    s e
  show ?thesis by blast
qed

lemmas host_ops =
  primitive_add_def objects_new_link_def update_object_def update_rigid_body_def
  update_constraint_def rigidbody_object_add_def rigidbody_constraint_add_def

lemma add_collider_eq:
  "add_collider child ph s =
     (if ptype ph = SphereCollider then
        s\<lparr>scene_objects := scene_objects s @
             [collider_object child (UVSphere (radius ph * SPHERE_RADIUS_FACTOR)) ''SPHERE''],
          active := Some (ObjectRef (length (scene_objects s)))\<rparr>
      else if ptype ph = CapsuleCollider then
        s\<lparr>scene_objects := scene_objects s @
             [collider_object child
                (Cylinder (radius ph * CAPSULE_RADIUS_FACTOR) (height ph * CAPSULE_HEIGHT_FACTOR))
                ''CAPSULE''],
          active := Some (ObjectRef (length (scene_objects s)))\<rparr>
      else s)"
  by (simp add: add_collider_def Let_def host_ops collider_object_def new_object_def
      host_rigid_body_def)

lemma ensure_bone_rigidbody_found:
  "in_scene armature s (get_rb_name armature bone_name is_pivot) \<Longrightarrow>
   ensure_bone_rigidbody armature bone_name is_pivot r (s, trb) =
     Inr (scene_lookup armature s (get_rb_name armature bone_name is_pivot), s, trb)"
  by (simp add: ensure_bone_rigidbody_def)

lemma ensure_bone_rigidbody_pivot_new:
  "\<not> in_scene armature s (get_rb_name armature (Some n) True) \<Longrightarrow>
   ensure_bone_rigidbody armature (Some n) True r (s, trb) =
     Inr (ObjectRef (length (scene_objects s)),
          s\<lparr>scene_objects := scene_objects s @ [pivot_object (get_rb_name armature (Some n) True) n r],
            active := Some (ObjectRef (length (scene_objects s)))\<rparr>,
          trb)"
  by (simp add: ensure_bone_rigidbody_def Let_def host_ops pivot_object_def new_object_def
      host_rigid_body_def)

lemma ensure_bone_rigidbody_target_new:
  "\<not> in_scene armature s (get_rb_name armature (Some n) False) \<Longrightarrow>
   ensure_bone_rigidbody armature (Some n) False r (s, trb) =
     (if n \<in> set (ba_pose_bones armature) then
        Inr (ObjectRef (length (scene_objects s)),
             s\<lparr>scene_objects := scene_objects s @ [target_object (get_rb_name armature (Some n) False) n r],
               active := Some ArmatureRef, mode := ''POSE''\<rparr>,
             dict_set trb (get_rb_name armature (Some n) False) (length (scene_objects s)))
      else Inl KeyError)"
  by (simp add: ensure_bone_rigidbody_def Let_def host_ops target_object_def new_object_def
      host_rigid_body_def)

lemma set_no_collision_eq:
  "set_no_collision x y s =
     s\<lparr>scene_objects := scene_objects s @
          [joint_object ''NoCollisionJoint'' (ObjectRef y) (no_collision_constraint x y)],
       active := Some (ObjectRef (length (scene_objects s)))\<rparr>"
  by (simp add: set_no_collision_def Let_def host_ops joint_object_def new_object_def
      no_collision_constraint_def)

lemma body_simps [simp]:
  "\<not> is_pivot_body (collider_object child d shape)"
  "\<not> is_target_body (collider_object child d shape)"
  "is_pivot_body (pivot_object N n r)"
  "\<not> is_target_body (pivot_object N n r)"
  "\<not> is_pivot_body (target_object N n r)"
  "is_target_body (target_object N n r)"
  "\<not> is_pivot_body (joint_object jn pv ct)"
  "\<not> is_target_body (joint_object jn pv ct)"
  by (simp_all add: is_pivot_body_def is_target_body_def collider_object_def pivot_object_def
      target_object_def joint_object_def new_object_def)

lemma name_simps [simp]:
  "obj_name (collider_object child d shape) = name child @ ''_rigidbody''"
  "obj_name (pivot_object N n r) = N"
  "obj_name (target_object N n r) = N"
  "obj_name (joint_object jn pv ct) = jn"
  by (simp_all add: collider_object_def pivot_object_def target_object_def joint_object_def
      new_object_def)

lemma targets_append:
  "filter (\<lambda>i. is_target_body ((obs @ [ob]) ! i)) [n0..<length obs] =
   filter (\<lambda>i. is_target_body (obs ! i)) [n0..<length obs]"
  by (rule filter_cong) (simp_all add: nth_append)

lemma loop_inv_other:
  assumes "loop_inv armature bs n0 obs trb" "new_ok armature bs ob"
    "\<not> is_pivot_body ob" "\<not> is_target_body ob"
  shows "loop_inv armature bs n0 (obs @ [ob]) trb"
  using assms unfolding loop_inv_def
  by (auto simp: targets_append)

lemma loop_inv_pivot:
  assumes "loop_inv armature bs n0 obs trb"
    and "get_rb_name armature (Some n) True \<notin> set (map obj_name obs)"
  shows "loop_inv armature bs n0 (obs @ [pivot_object (get_rb_name armature (Some n) True) n r]) trb"
proof -
  have "new_ok armature bs (pivot_object (get_rb_name armature (Some n) True) n r)"
    unfolding new_ok_def by blast
  moreover have "get_rb_name armature (Some n) True \<notin>
      obj_name ` set (filter (\<lambda>ob. is_pivot_body ob \<or> is_target_body ob) (drop n0 obs))"
    using assms(2) by (auto dest: in_set_dropD)
  ultimately show ?thesis
    using assms unfolding loop_inv_def
    by (auto simp: targets_append)
qed

lemma loop_inv_target:
  assumes "loop_inv armature bs n0 obs trb"
    and "get_rb_name armature (Some n) False \<notin> set (map obj_name obs)"
  shows "loop_inv armature bs n0
           (obs @ [target_object (get_rb_name armature (Some n) False) n r])
           (dict_set trb (get_rb_name armature (Some n) False) (length obs))"
proof -
  let ?N = "get_rb_name armature (Some n) False"
  have ok: "new_ok armature bs (target_object ?N n r)"
    unfolding new_ok_def by blast
  have nb: "?N \<notin> obj_name ` set (filter (\<lambda>ob. is_pivot_body ob \<or> is_target_body ob) (drop n0 obs))"
    using assms(2) by (auto dest: in_set_dropD)
  from assms have "?N \<notin> fst ` set trb" unfolding loop_inv_def by auto
  then have ds: "dict_set trb ?N (length obs) = trb @ [(?N, length obs)]"
    by (simp add: dict_set_def)
  show ?thesis
    using assms ok nb unfolding loop_inv_def ds
    by (auto simp: targets_append)
qed

lemma not_in_scene_names:
  "\<not> in_scene armature s N \<Longrightarrow> N \<notin> set (map obj_name (scene_objects s))"
  by (simp add: in_scene_def)

lemma new_ok_mono: "new_ok armature B ob \<Longrightarrow> B \<subseteq> B' \<Longrightarrow> new_ok armature B' ob"
  unfolding new_ok_def by blast

lemma loop_inv_mono: "loop_inv armature B n0 obs trb \<Longrightarrow> B \<subseteq> B' \<Longrightarrow> loop_inv armature B' n0 obs trb"
  unfolding loop_inv_def using new_ok_mono by blast

lemma ensure_bone_rigidbody_inv:
  assumes "ensure_bone_rigidbody armature bn is_pivot r (s, trb) = Inr (ref, s', trb')"
    and "loop_inv armature B n0 (scene_objects s) trb"
  shows "loop_inv armature B n0 (scene_objects s') trb'"
proof (cases "in_scene armature s (get_rb_name armature bn is_pivot)")
  case True
  with assms show ?thesis by (simp add: ensure_bone_rigidbody_found)
next
  case False
  show ?thesis
  proof (cases bn)
    case None
    with False assms(1) show ?thesis
      by (simp add: ensure_bone_rigidbody_def Let_def split: if_splits)
  next
    case (Some n)
    show ?thesis
    proof (cases is_pivot)
      case True
      with False Some assms(1) have "scene_objects s' = scene_objects s @ [pivot_object (get_rb_name armature (Some n) True) n r]"
        and "trb' = trb"
        by (auto simp: ensure_bone_rigidbody_pivot_new)
      with loop_inv_pivot[OF assms(2), where n = n and r = r] not_in_scene_names[OF False] Some True
      show ?thesis by simp
    next
      case F: False
      with False Some assms(1) have "scene_objects s' = scene_objects s @ [target_object (get_rb_name armature (Some n) False) n r]"
        and "trb' = dict_set trb (get_rb_name armature (Some n) False) (length (scene_objects s))"
        by (auto simp: ensure_bone_rigidbody_target_new split: if_splits)
      with loop_inv_target[OF assms(2), where n = n and r = r] not_in_scene_names[OF False] Some F
      show ?thesis by simp
    qed
  qed
qed

lemma add_spring_bone_eq:
  "add_spring_bone armature child ph st =
     (case ensure_bone_rigidbody armature (pivot ph) True PIVOT_SIZE st of
        Inl e \<Rightarrow> Inl e
      | Inr (pivot_obj, st1) \<Rightarrow>
          (case ensure_bone_rigidbody armature (Some (name child)) False
                  (radius ph * SPRINGBONE_RADIUS_FACTOR) st1 of
             Inl e \<Rightarrow> Inl e
           | Inr (target, s2, trb) \<Rightarrow>
               if name child \<in> set (ba_pose_bones armature) then
                 Inr (s2\<lparr>scene_objects := scene_objects s2 @
                           [joint_object ''SpringBoneJoint'' pivot_obj
                              (spring_constraint ph pivot_obj target)],
                         active := Some ArmatureRef, mode := ''POSE'',
                         pose_constraints :=
                           pose_constraints s2 @ [(name child, ''COPY_TRANSFORMS'', target)]\<rparr>,
                      trb)
               else Inl KeyError))"
  by (simp add: add_spring_bone_def Let_def host_ops joint_object_def new_object_def
      spring_constraint_def split: sum.splits prod.splits)

lemma add_spring_bone_inv:
  assumes run: "add_spring_bone armature child ph (s, trb) = Inr (s', trb')"
    and inv: "loop_inv armature B n0 (scene_objects s) trb"
    and ch: "child \<in> B" "physics child = Some ph" "ptype ph = SpringBone"
  shows "loop_inv armature B n0 (scene_objects s') trb'"
proof -
  from run obtain pv s1 trb1 tg s2 where
    e1: "ensure_bone_rigidbody armature (pivot ph) True PIVOT_SIZE (s, trb) = Inr (pv, s1, trb1)"
    and e2: "ensure_bone_rigidbody armature (Some (name child)) False
               (radius ph * SPRINGBONE_RADIUS_FACTOR) (s1, trb1) = Inr (tg, s2, trb')"
    and o: "scene_objects s' = scene_objects s2 @
              [joint_object ''SpringBoneJoint'' pv (spring_constraint ph pv tg)]"
    unfolding add_spring_bone_eq
    by (auto split: sum.splits prod.splits if_splits)
  from ensure_bone_rigidbody_inv[OF e2 ensure_bone_rigidbody_inv[OF e1 inv]]
  have i2: "loop_inv armature B n0 (scene_objects s2) trb'" .
  have "new_ok armature B (joint_object ''SpringBoneJoint'' pv (spring_constraint ph pv tg))"
    unfolding new_ok_def using ch by blast
  from loop_inv_other[OF i2 this] o show ?thesis by simp
qed

lemma add_collider_inv:
  assumes inv: "loop_inv armature B n0 (scene_objects s) trb" and ch: "child \<in> B"
  shows "loop_inv armature B n0 (scene_objects (add_collider child ph s)) trb"
proof -
  have "new_ok armature B (collider_object child d shape)" for d shape
    unfolding new_ok_def using ch by blast
  from loop_inv_other[OF inv this] inv show ?thesis
    by (simp add: add_collider_eq)
qed

lemma physics_of_bone_inv:
  assumes run: "physics_of_bone armature child (s, trb) = Inr (s', trb')"
    and inv: "loop_inv armature B n0 (scene_objects s) trb" and ch: "child \<in> B"
  shows "loop_inv armature B n0 (scene_objects s') trb'"
proof (cases "physics child")
  case None
  with run inv show ?thesis by (simp add: physics_of_bone_def)
next
  case (Some ph)
  define s1 where "s1 = (if type_has (ptype ph) Collider then add_collider child ph s else s)"
  have i1: "loop_inv armature B n0 (scene_objects s1) trb"
    using inv add_collider_inv[OF inv ch] by (simp add: s1_def)
  show ?thesis
  proof (cases "type_has (ptype ph) BoneFlag \<and> ptype ph = SpringBone")
    case True
    with run Some have "add_spring_bone armature child ph (s1, trb) = Inr (s', trb')"
      by (simp add: physics_of_bone_def s1_def Let_def split: if_splits)
    from add_spring_bone_inv[OF this i1 ch Some] True show ?thesis by simp
  next
    case False
    with run Some have "s' = s1" "trb' = trb"
      by (auto simp: physics_of_bone_def s1_def Let_def split: if_splits)
    with i1 show ?thesis by simp
  qed
qed

lemma physics_of_bones_inv:
  assumes "physics_of_bones armature bs js (s, trb) = Inr (s', trb')"
    and "loop_inv armature B n0 (scene_objects s) trb" and "(\<lambda>j. bs ! j) ` set js \<subseteq> B"
  shows "loop_inv armature B n0 (scene_objects s') trb'"
  using assms
proof (induction js arbitrary: s trb)
  case Nil
  then show ?case by simp
next
  case (Cons j js)
  from Cons.prems(1) obtain s1 trb1 where
    st: "physics_of_bone armature (bs ! j) (s, trb) = Inr (s1, trb1)"
    and r: "physics_of_bones armature bs js (s1, trb1) = Inr (s', trb')"
    by (auto split: sum.splits)
  from Cons.prems(3) have "bs ! j \<in> B" by simp
  from physics_of_bone_inv[OF st Cons.prems(2) this]
  have "loop_inv armature B n0 (scene_objects s1) trb1" .
  from Cons.IH[OF r this] Cons.prems(3) show ?case by simp
qed

lemma loop_inv_init: "loop_inv armature B (length obs) obs []"
  by (simp add: loop_inv_def)

lemma length_no_collision_pairs:
  "length (no_collision_pairs xs) = length xs * (length xs - 1) div 2"
proof (induction xs)
  case Nil
  then show ?case by simp
next
  case (Cons x xs)
  show ?case
  proof (cases xs)
    case Nil
    then show ?thesis by simp
  next
    case (Cons y ys)
    define m where "m = length ys"
    have "Suc (Suc m) * Suc m = Suc m * m + Suc m * 2" by simp
    moreover have "(Suc m * m + Suc m * 2) div 2 = Suc m * m div 2 + Suc m"
      by (subst div_mult_self1) simp_all
    ultimately have "Suc (Suc m) * Suc m div 2 = Suc m * m div 2 + Suc m"
      by (simp only:)
    with Cons.IH Cons show ?thesis by (simp add: m_def)
  qed
qed

lemma no_collision_pairs_mem:
  "(p, q) \<in> set (no_collision_pairs xs) \<Longrightarrow> p \<in> set xs \<and> q \<in> set xs"
  by (induction xs) auto

lemma no_collision_pairs_neq:
  "distinct xs \<Longrightarrow> (p, q) \<in> set (no_collision_pairs xs) \<Longrightarrow> p \<noteq> q"
  by (induction xs) (auto dest: no_collision_pairs_mem)

lemma filter_eq_distinct:
  "distinct xs \<Longrightarrow> length (filter (\<lambda>y. y = b) xs) = (if b \<in> set xs then 1 else 0)"
  by (induction xs) auto

lemma filter_pairs_none:
  "a \<notin> set xs \<Longrightarrow>
   filter (\<lambda>(x, y). (x = a \<and> y = b) \<or> (x = b \<and> y = a)) (no_collision_pairs xs) = []"
  by (auto simp: filter_empty_conv dest: no_collision_pairs_mem)

lemma no_collision_pairs_once:
  "distinct xs \<Longrightarrow> a \<in> set xs \<Longrightarrow> b \<in> set xs \<Longrightarrow> a \<noteq> b \<Longrightarrow>
   length (filter (\<lambda>(x, y). (x = a \<and> y = b) \<or> (x = b \<and> y = a)) (no_collision_pairs xs)) = 1"
proof (induction xs)
  case Nil
  then show ?case by simp
next
  case (Cons x xs)
  have m: "filter (\<lambda>(x', y). (x' = a \<and> y = b) \<or> (x' = b \<and> y = a)) (map (\<lambda>y. (x, y)) xs) =
        map (\<lambda>y. (x, y)) (filter (\<lambda>y. (x = a \<and> y = b) \<or> (x = b \<and> y = a)) xs)"
    by (simp add: filter_map comp_def)
  consider "x = a" | "x = b" | "x \<noteq> a" "x \<noteq> b" by blast
  then show ?case
  proof cases
    case 1
    with Cons.prems have bx: "b \<in> set xs" "a \<notin> set xs" "distinct xs" by auto
    have "filter (\<lambda>y. (x = a \<and> y = b) \<or> (x = b \<and> y = a)) xs = filter (\<lambda>y. y = b) xs"
      using 1 Cons.prems(4) by (intro filter_cong) auto
    with filter_eq_distinct[OF bx(3), of b] bx(1) filter_pairs_none[OF bx(2), of b] m
    show ?thesis by simp
  next
    case 2
    with Cons.prems have ax: "a \<in> set xs" "b \<notin> set xs" "distinct xs" by auto
    have "filter (\<lambda>y. (x = a \<and> y = b) \<or> (x = b \<and> y = a)) xs = filter (\<lambda>y. y = a) xs"
      using 2 Cons.prems(4) by (intro filter_cong) auto
    moreover have "filter (\<lambda>(x, y). (x = a \<and> y = b) \<or> (x = b \<and> y = a)) (no_collision_pairs xs) = []"
      using ax(2) by (auto simp: filter_empty_conv dest: no_collision_pairs_mem)
    ultimately show ?thesis
      using filter_eq_distinct[OF ax(3), of a] ax(1) m by simp
  next
    case 3
    with Cons.prems have "a \<in> set xs" "b \<in> set xs" "distinct xs" by auto
    from Cons.IH[OF this(3) this(1) this(2) Cons.prems(4)] 3 m show ?thesis by simp
  qed
qed

lemma set_no_collisions_fold:
  "scene_objects (fold (\<lambda>(x, y). set_no_collision x y) ps s) = scene_objects s @ map no_collision_joint ps \<and>
   pose_constraints (fold (\<lambda>(x, y). set_no_collision x y) ps s) = pose_constraints s"
  by (induction ps arbitrary: s)
    (auto simp: set_no_collision_eq no_collision_joint_def)

lemma rigidbody_suffix_last: "last (xs @ ''_rigidbody'') = CHR ''y''"
  by simp

lemma get_rb_name_last: "last (get_rb_name armature bn p) = CHR ''y''"
  by (simp add: get_rb_name_def)

lemma new_ok_cases:
  assumes "new_ok armature B ob"
  shows "last (obj_name ob) = CHR ''y'' \<or>
         (\<exists>child ph pv tg. child \<in> B \<and> physics child = Some ph \<and> ptype ph = SpringBone \<and>
            ob = joint_object ''SpringBoneJoint'' pv (spring_constraint ph pv tg))"
proof -
  from assms consider
    (c) child d shape where "ob = collider_object child d shape"
    | (p) n r where "ob = pivot_object (get_rb_name armature (Some n) True) n r"
    | (t) n r where "ob = target_object (get_rb_name armature (Some n) False) n r"
    | (j) "\<exists>child ph pv tg. child \<in> B \<and> physics child = Some ph \<and> ptype ph = SpringBone \<and>
            ob = joint_object ''SpringBoneJoint'' pv (spring_constraint ph pv tg)"
    unfolding new_ok_def by blast
  then show ?thesis
  proof cases
    case c
    then show ?thesis by simp
  next
    case p
    then show ?thesis by (simp add: get_rb_name_last)
  next
    case t
    then show ?thesis by (simp add: get_rb_name_last)
  next
    case j
    then show ?thesis by blast
  qed
qed

lemma new_ok_name:
  assumes "new_ok armature B ob"
  shows "obj_name ob \<noteq> ''NoCollisionJoint''"
    and "obj_name ob = ''SpringBoneJoint'' \<Longrightarrow>
         \<exists>child ph pv tg. child \<in> B \<and> physics child = Some ph \<and> ptype ph = SpringBone \<and>
            ob = joint_object ''SpringBoneJoint'' pv (spring_constraint ph pv tg)"
proof -
  from new_ok_cases[OF assms] show "obj_name ob \<noteq> ''NoCollisionJoint''"
    by auto
  assume "obj_name ob = ''SpringBoneJoint''"
  with new_ok_cases[OF assms]
  show "\<exists>child ph pv tg. child \<in> B \<and> physics child = Some ph \<and> ptype ph = SpringBone \<and>
            ob = joint_object ''SpringBoneJoint'' pv (spring_constraint ph pv tg)"
    by auto
qed

section \<open>Properties of the physics import\<close>

lemma import_root_None:
  "root data = None \<Longrightarrow> import_armature_physics_constraints armature data s = Inl AttributeError"
  by (simp add: import_armature_physics_constraints_def Let_def)

lemma import_root_Some:
  "root data = Some r \<Longrightarrow>
   import_armature_physics_constraints armature data s =
     (case (case recursive_locate_by_name (bones data) r ''Position'' of
              None \<Rightarrow> Inr (s\<lparr>active := Some ArmatureRef, mode := ''OBJECT''\<rparr>, [])
            | Some bone \<Rightarrow>
                physics_of_bones armature (bones data) (dfs_generator (bones data) bone)
                  (s\<lparr>active := Some ArmatureRef, mode := ''OBJECT''\<rparr>, [])) of
        Inl e \<Rightarrow> Inl e
      | Inr (s1, trb) \<Rightarrow>
          (if trb \<noteq> [] then Inr (set_no_collisions (map snd trb) s1) else Inr s1))"
  by (simp add: import_armature_physics_constraints_def Let_def)

lemma import_decompose:
  assumes "import_armature_physics_constraints armature data s = Inr s'"
  shows "\<exists>(s1::host) trb.
      loop_inv armature (set (visited_bones data)) (length (scene_objects s)) (scene_objects s1) trb \<and>
      scene_objects s' =
        scene_objects s1 @ map no_collision_joint (no_collision_pairs (map snd trb))"
proof -
  let ?s0 = "s\<lparr>active := Some ArmatureRef, mode := ''OBJECT''\<rparr>"
  let ?B = "set (visited_bones data)"
  from assms obtain r where r: "root data = Some r"
    by (cases "root data") (simp_all add: import_root_None)
  define res where "res =
      (case recursive_locate_by_name (bones data) r ''Position'' of
         None \<Rightarrow> Inr (?s0, [])
       | Some bone \<Rightarrow>
           physics_of_bones armature (bones data) (dfs_generator (bones data) bone) (?s0, []))"
  from assms have eq: "(case res of
        Inl e \<Rightarrow> Inl e
      | Inr (s1, trb) \<Rightarrow>
          (if trb \<noteq> [] then Inr (set_no_collisions (map snd trb) s1) else Inr s1)) = Inr s'"
    by (simp only: import_root_Some[OF r] res_def)
  then obtain s1 trb where res: "res = Inr (s1, trb)"
    by (cases res) auto
  with eq have s': "s' = (if trb \<noteq> [] then set_no_collisions (map snd trb) s1 else s1)"
    by (simp split: if_splits)
  note run = res[unfolded res_def]
  have init: "loop_inv armature ?B (length (scene_objects s)) (scene_objects ?s0) []"
    using loop_inv_init[of armature ?B "scene_objects s"] by simp
  have inv: "loop_inv armature ?B (length (scene_objects s)) (scene_objects s1) trb"
  proof (cases "recursive_locate_by_name (bones data) r ''Position''")
    case None
    with run have "s1 = ?s0" "trb = []" by simp_all
    with init show ?thesis by simp
  next
    case (Some bone)
    with r have sub: "(\<lambda>j. bones data ! j) ` set (dfs_generator (bones data) bone) \<subseteq> ?B"
      by (simp add: visited_bones_def)
    from run Some have pb: "physics_of_bones armature (bones data)
        (dfs_generator (bones data) bone) (?s0, []) = Inr (s1, trb)"
      by simp
    from physics_of_bones_inv[OF pb init sub] show ?thesis .
  qed
  have fin: "scene_objects s' =
        scene_objects s1 @ map no_collision_joint (no_collision_pairs (map snd trb))"
  proof (cases "trb = []")
    case True
    with s' show ?thesis by simp
  next
    case False
    with s' have "s' = fold (\<lambda>(x, y). set_no_collision x y) (no_collision_pairs (map snd trb)) s1"
      by (simp add: set_no_collisions_def)
    then show ?thesis
      by (simp only: set_no_collisions_fold[THEN conjunct1])
  qed
  from inv fin show ?thesis by blast
qed

lemma not_target_no_collision_joint [simp]: "\<not> is_target_body (no_collision_joint p)"
  by (simp add: no_collision_joint_def)

lemma name_no_collision_joint [simp]: "obj_name (no_collision_joint p) = ''NoCollisionJoint''"
  by (simp add: no_collision_joint_def)

lemma joins_no_collision_joint:
  "joins (no_collision_joint p) a b =
     (case p of (x, y) \<Rightarrow> (x = a \<and> y = b) \<or> (x = b \<and> y = a))"
  by (cases p)
    (simp add: joins_def no_collision_joint_def joint_object_def no_collision_constraint_def
      new_object_def)

lemma filter_upt_beyond:
  "(\<And>i. m \<le> i \<Longrightarrow> i < m + k \<Longrightarrow> \<not> P i) \<Longrightarrow> filter P [n0..<m + k] = filter P [n0..<m]"
proof (induction k)
  case 0
  then show ?case by simp
next
  case (Suc k)
  from Suc.prems[of "m + k"] have "\<not> P (m + k)" by simp
  moreover from Suc.IH Suc.prems have "filter P [n0..<m + k] = filter P [n0..<m]" by simp
  ultimately show ?case by simp
qed

lemma targets_prefix:
  "filter (\<lambda>i. is_target_body ((obs @ map no_collision_joint ps) ! i))
      [n0..<length (obs @ map no_collision_joint ps)] =
   filter (\<lambda>i. is_target_body (obs ! i)) [n0..<length obs]"
proof -
  have "filter (\<lambda>i. is_target_body ((obs @ map no_collision_joint ps) ! i))
      [n0..<length obs + length ps] =
    filter (\<lambda>i. is_target_body ((obs @ map no_collision_joint ps) ! i)) [n0..<length obs]"
    by (rule filter_upt_beyond) (simp add: nth_append)
  also have "\<dots> = filter (\<lambda>i. is_target_body (obs ! i)) [n0..<length obs]"
    by (rule filter_cong) (simp_all add: nth_append)
  finally show ?thesis by simp
qed

text \<open>
  Claim C7. Among the objects that a call adds to the scene, the target bodies are the
  active, non-kinematic rigid bodies, and the no-collision links are the objects named
  NoCollisionJoint. With \<open>n\<close> target bodies there are \<open>n * (n - 1) div 2\<close> links; every link
  joins two distinct target bodies, and every two distinct target bodies are joined by
  exactly one link.
\<close>

theorem C7_no_collision_links:
  assumes "import_armature_physics_constraints armature data s = Inr s'"
  shows "length (no_collision_links s s') =
           length (new_targets s s') * (length (new_targets s s') - 1) div 2 \<and>
         distinct (new_targets s s') \<and>
         (\<forall>l\<in>set (no_collision_links s s').
            \<exists>a\<in>set (new_targets s s'). \<exists>b\<in>set (new_targets s s'). a \<noteq> b \<and> joins l a b) \<and>
         (\<forall>a\<in>set (new_targets s s'). \<forall>b\<in>set (new_targets s s'). a \<noteq> b \<longrightarrow>
            length (filter (\<lambda>l. joins l a b) (no_collision_links s s')) = 1)"
proof -
  from import_decompose[OF assms] obtain s1 :: host and trb where
    inv: "loop_inv armature (set (visited_bones data)) (length (scene_objects s)) (scene_objects s1) trb"
    and obs: "scene_objects s' =
        scene_objects s1 @ map no_collision_joint (no_collision_pairs (map snd trb))"
    by blast
  let ?n0 = "length (scene_objects s)"
  let ?rbs = "map snd trb"
  let ?ps = "no_collision_pairs ?rbs"
  from inv have n0: "?n0 \<le> length (scene_objects s1)"
    and rbs: "?rbs = filter (\<lambda>i. is_target_body (scene_objects s1 ! i)) [?n0..<length (scene_objects s1)]"
    and ok: "\<forall>ob\<in>set (drop ?n0 (scene_objects s1)). new_ok armature (set (visited_bones data)) ob"
    by (simp_all add: loop_inv_def)
  have tg: "new_targets s s' = ?rbs"
    unfolding new_targets_def obs rbs by (rule targets_prefix)
  have "filter (\<lambda>ob. obj_name ob = ''NoCollisionJoint'') (drop ?n0 (scene_objects s1)) = []"
    using ok new_ok_name(1) by (auto simp: filter_empty_conv)
  then have lk: "no_collision_links s s' = map no_collision_joint ?ps"
    unfolding no_collision_links_def new_objects_def obs using n0
    by (simp add: filter_map comp_def)
  have d: "distinct ?rbs" unfolding rbs by simp
  have c1: "length (no_collision_links s s') =
           length (new_targets s s') * (length (new_targets s s') - 1) div 2"
    by (simp only: lk tg length_map length_no_collision_pairs)
  have c3: "\<forall>l\<in>set (no_collision_links s s').
            \<exists>a\<in>set (new_targets s s'). \<exists>b\<in>set (new_targets s s'). a \<noteq> b \<and> joins l a b"
  proof
    fix l assume "l \<in> set (no_collision_links s s')"
    then obtain x y where xy: "(x, y) \<in> set ?ps" and l: "l = no_collision_joint (x, y)"
      unfolding lk by auto
    from no_collision_pairs_mem[OF xy] no_collision_pairs_neq[OF d xy]
    show "\<exists>a\<in>set (new_targets s s'). \<exists>b\<in>set (new_targets s s'). a \<noteq> b \<and> joins l a b"
      unfolding tg l by (auto simp: joins_no_collision_joint)
  qed
  have c4: "\<forall>a\<in>set (new_targets s s'). \<forall>b\<in>set (new_targets s s'). a \<noteq> b \<longrightarrow>
            length (filter (\<lambda>l. joins l a b) (no_collision_links s s')) = 1"
  proof (intro ballI impI)
    fix a b assume ab: "a \<in> set (new_targets s s')" "b \<in> set (new_targets s s')" "a \<noteq> b"
    have "filter (\<lambda>l. joins l a b) (map no_collision_joint ?ps) =
          map no_collision_joint (filter (\<lambda>(x, y). (x = a \<and> y = b) \<or> (x = b \<and> y = a)) ?ps)"
      by (simp add: filter_map comp_def joins_no_collision_joint)
    with no_collision_pairs_once[OF d, of a b] ab
    show "length (filter (\<lambda>l. joins l a b) (no_collision_links s s')) = 1"
      unfolding lk tg by simp
  qed
  from d have d': "distinct (new_targets s s')" by (simp only: tg)
  show ?thesis by (intro conjI c1 d' c3 c4)
qed



lemma dfs_generator_range:
  "j \<in> set (dfs_generator bs i) \<Longrightarrow> j = i \<or> j < length bs"
proof (induction bs i arbitrary: j rule: dfs_generator.induct)
  case (1 bs i)
  from "1.prems" have "j = i \<or>
      (\<exists>c\<in>set (filter (\<lambda>c. i < c \<and> c < length bs) (children (bs ! i))).
         j \<in> set (dfs_generator bs c))"
    by (subst (asm) dfs_generator.simps) auto
  then show ?case
  proof
    assume "j = i"
    then show ?thesis by simp
  next
    assume "\<exists>c\<in>set (filter (\<lambda>c. i < c \<and> c < length bs) (children (bs ! i))).
         j \<in> set (dfs_generator bs c)"
    then obtain c where c: "c \<in> set (filter (\<lambda>c. i < c \<and> c < length bs) (children (bs ! i)))"
      and j: "j \<in> set (dfs_generator bs c)" by blast
    from "1.IH"[OF c j] c show ?thesis by auto
  qed
qed

lemma built_root:
  assumes "search_env_meshes hash env = Inr (statics, armatures)" "a \<in> set armatures"
  shows "root a = Some 0" "0 < length (bones a)"
proof -
  from search_env_meshes_built[OF assms] obtain r where b: "build_armature hash r = Inr a" by blast
  from build_armature_facts(2)[OF b] show "root a = Some 0" .
  have "preorder r \<noteq> []" by (cases r) simp
  with build_armature_trace(1)[OF b] show "0 < length (bones a)" by simp
qed

text \<open>
  Claim C9. When no bone reachable from the root is named Position, the call returns
  without an error and changes only the active object and the mode of the host: no object
  and no pose constraint is added. This holds in particular for an armature returned by
  \<open>search_env_meshes\<close> whose store has no bone of that name.
\<close>

theorem C9_no_position_bone:
  "(\<forall>r. root data = Some r \<longrightarrow>
        (\<forall>j\<in>set (dfs_generator (bones data) r). name (bones data ! j) \<noteq> ''Position'') \<longrightarrow>
        import_armature_physics_constraints armature data s =
          Inr (s\<lparr>active := Some ArmatureRef, mode := ''OBJECT''\<rparr>)) \<and>
   (\<forall>hash env statics armatures.
        search_env_meshes hash env = Inr (statics, armatures) \<longrightarrow> data \<in> set armatures \<longrightarrow>
        (\<forall>b\<in>set (bones data). name b \<noteq> ''Position'') \<longrightarrow>
        import_armature_physics_constraints armature data s =
          Inr (s\<lparr>active := Some ArmatureRef, mode := ''OBJECT''\<rparr>))"
proof -
  have g: "import_armature_physics_constraints armature data s =
          Inr (s\<lparr>active := Some ArmatureRef, mode := ''OBJECT''\<rparr>)"
    if r: "root data = Some r"
      and n: "\<forall>j\<in>set (dfs_generator (bones data) r). name (bones data ! j) \<noteq> ''Position''"
    for r
  proof -
    from n have "recursive_locate_by_name (bones data) r ''Position'' = None"
      by (simp add: recursive_locate_by_name_def find_None_iff)
    then show ?thesis by (simp add: import_root_Some[OF r])
  qed
  have b: "import_armature_physics_constraints armature data s =
          Inr (s\<lparr>active := Some ArmatureRef, mode := ''OBJECT''\<rparr>)"
    if s: "search_env_meshes hash env = Inr (statics, armatures)" and d: "data \<in> set armatures"
      and n: "\<forall>b\<in>set (bones data). name b \<noteq> ''Position''"
    for hash env statics armatures
  proof -
    from built_root[OF s d] have r: "root data = Some 0" and l: "0 < length (bones data)" .
    have "\<forall>j\<in>set (dfs_generator (bones data) 0). name (bones data ! j) \<noteq> ''Position''"
    proof
      fix j assume "j \<in> set (dfs_generator (bones data) 0)"
      from dfs_generator_range[OF this] l have "j < length (bones data)" by auto
      with n show "name (bones data ! j) \<noteq> ''Position''" by simp
    qed
    from g[OF r this] show ?thesis .
  qed
  from g b show ?thesis by blast
qed



lemma parent_bone_pivot_object [simp]: "parent_bone (pivot_object N n r) = n"
  by (simp add: pivot_object_def)

lemma matrix_world_bone_target_object [simp]: "matrix_world_bone (target_object N n r) = Some n"
  by (simp add: target_object_def)




lemma find_index_of_Some:
  "n \<in> set (map obj_name obs) \<Longrightarrow>
   \<exists>k. find_index_of n obs i = Some k \<and> i \<le> k \<and> k - i < length obs \<and> obj_name (obs ! (k - i)) = n"
proof (induction obs arbitrary: i)
  case Nil
  then show ?case by simp
next
  case (Cons ob obs)
  show ?case
  proof (cases "obj_name ob = n")
    case True
    then show ?thesis by simp
  next
    case False
    with Cons.prems have "n \<in> set (map obj_name obs)" by auto
    from Cons.IH[OF this, of "Suc i"] obtain k where
      k: "find_index_of n obs (Suc i) = Some k" "Suc i \<le> k" "k - Suc i < length obs"
         "obj_name (obs ! (k - Suc i)) = n" by blast
    then have "k - i = Suc (k - Suc i)" by simp
    with k False show ?thesis by simp
  qed
qed

lemma scene_lookup_object:
  assumes "n \<in> set (map obj_name (scene_objects s))"
  shows "\<exists>k. scene_lookup armature s n = ObjectRef k \<and> k < length (scene_objects s) \<and>
             obj_name (scene_objects s ! k) = n"
  using find_index_of_Some[OF assms, of 0] by (auto simp: scene_lookup_def)












lemma rig_generator: "dfs_generator rig_bones 0 = [0, 1, 2, 3]"
proof -
  have leaf: "dfs_generator rig_bones i = [i]" if "i \<in> {1, 2, 3}" for i
    using that
    by (subst dfs_generator.simps)
      (auto simp: rig_bones_def physics_bone_def plain_bone_def)
  have "dfs_generator rig_bones 0 =
      0 # concat (map (dfs_generator rig_bones) [1, 2, 3])"
    by (subst dfs_generator.simps) (simp add: rig_bones_def plain_bone_def physics_bone_def)
  then show ?thesis by (simp add: leaf)
qed

lemma rig_locate: "recursive_locate_by_name rig_bones 0 ''Position'' = Some 0"
  by (simp add: recursive_locate_by_name_def rig_generator) (simp add: rig_bones_def plain_bone_def)


lemma rig_run:
  "import_armature_physics_constraints rig_armature spring_rig empty_scene = Inr rig_result"
proof -
  have r: "root spring_rig = Some 0" by (simp add: spring_rig_def)
  have b: "bones spring_rig = rig_bones" by (simp add: spring_rig_def)
  have ph: "physics (rig_bones ! 0) = None"
    "physics (rig_bones ! 1) = Some (spring_physics ''Position'')"
    "physics (rig_bones ! 2) = Some (spring_physics ''Position'')"
    "physics (rig_bones ! 3) = Some (spring_physics ''Position'')"
    "name (rig_bones ! 1) = ''Hair1''" "name (rig_bones ! 2) = ''Hair2''"
    "name (rig_bones ! 3) = ''Hair3''"
    by (simp_all add: rig_bones_def plain_bone_def physics_bone_def)
  have sp: "ptype (spring_physics pv) = SpringBone" "pivot (spring_physics pv) = Some pv"
    "radius (spring_physics pv) = 2" for pv
    by (simp_all add: spring_physics_def)
  show ?thesis
    unfolding import_root_Some[OF r] b
    by (simp add: rig_locate rig_generator physics_of_bone_def ph ph[simplified] sp type_has_def Let_def add_spring_bone_eq
        ensure_bone_rigidbody_found ensure_bone_rigidbody_pivot_new
        ensure_bone_rigidbody_target_new in_scene_def scene_lookup_def get_rb_name_def
        rig_armature_def empty_scene_def dict_set_def SPRINGBONE_RADIUS_FACTOR_def
        set_no_collisions_def set_no_collision_eq rig_result_def rig_objects_def rig_joint_def
        no_collision_joint_def)
      (simp add: eval_nat_numeral)
qed

lemma no_position_search:
  "search_env_meshes h no_position_objects = Inr ([], [body_armature h])"
  by (simp add: search_env_meshes_def no_position_objects_def node_def run_defs
      skinned_object_def plain_object_def body_armature_def plain_bone_def)

lemma body_generator: "dfs_generator (bones (body_armature h)) 0 = [0, 1]"
proof -
  have "dfs_generator (bones (body_armature h)) 1 = [1]"
    by (subst dfs_generator.simps) (simp add: body_armature_def plain_bone_def)
  moreover have "dfs_generator (bones (body_armature h)) 0 =
      0 # concat (map (dfs_generator (bones (body_armature h))) [1])"
    by (subst dfs_generator.simps) (simp add: body_armature_def plain_bone_def)
  ultimately show ?thesis by simp
qed


lemma rig_new_targets: "new_targets empty_scene rig_result = [1, 3, 5]"
proof -
  have "[0..<10] = [0, 1, 2, 3, 4, 5, 6, 7, 8, 9::nat]"
    by (simp add: upt_rec)
  then show ?thesis
    by (simp add: new_targets_def empty_scene_def rig_result_def rig_objects_def rig_joint_def
        no_collision_joint_def)
qed

text \<open>
  C7 at the rig with three spring bones in an empty scene: three target bodies, three links.
\<close>

theorem C7_no_collision_links_witness:
  "import_armature_physics_constraints rig_armature spring_rig empty_scene = Inr rig_result \<and>
   new_targets empty_scene rig_result = [1, 3, 5] \<and>
   length (no_collision_links empty_scene rig_result) = 3 \<and>
   length (filter (\<lambda>l. joins l 1 5) (no_collision_links empty_scene rig_result)) = 1"
proof -
  note t = C7_no_collision_links[OF rig_run]
  from t have "length (no_collision_links empty_scene rig_result) = 3"
    by (simp add: rig_new_targets)
  moreover from t have "length (filter (\<lambda>l. joins l 1 5) (no_collision_links empty_scene rig_result)) = 1"
    by (simp add: rig_new_targets)
  ultimately show ?thesis using rig_run rig_new_targets by simp
qed


text \<open>
  C9 at the armature of the forest Body, Hips, which has no bone named Position.
\<close>

theorem C9_no_position_bone_witness:
  "search_env_meshes scenario_hash no_position_objects = Inr ([], [body_armature scenario_hash]) \<and>
   map name (bones (body_armature scenario_hash)) = [''Body'', ''Hips''] \<and>
   import_armature_physics_constraints rig_armature (body_armature scenario_hash) empty_scene =
     Inr (empty_scene\<lparr>active := Some ArmatureRef, mode := ''OBJECT''\<rparr>) \<and>
   scene_objects (empty_scene\<lparr>active := Some ArmatureRef, mode := ''OBJECT''\<rparr>) = []"
proof -
  have s: "search_env_meshes scenario_hash no_position_objects =
      Inr ([], [body_armature scenario_hash])"
    by (rule no_position_search)
  have m: "body_armature scenario_hash \<in> set [body_armature scenario_hash]" by simp
  have nm: "map name (bones (body_armature scenario_hash)) = [''Body'', ''Hips'']"
    by (simp add: body_armature_def plain_bone_def)
  have n: "\<forall>b\<in>set (bones (body_armature scenario_hash)). name b \<noteq> ''Position''"
    by (simp add: body_armature_def plain_bone_def)
  have r: "root (body_armature scenario_hash) = Some 0" by (simp add: body_armature_def)
  have g: "\<forall>j\<in>set (dfs_generator (bones (body_armature scenario_hash)) 0).
      name (bones (body_armature scenario_hash) ! j) \<noteq> ''Position''"
    by (simp add: body_generator) (simp add: body_armature_def plain_bone_def)
  note t1 = C9_no_position_bone[of "body_armature scenario_hash" rig_armature empty_scene,
      THEN conjunct1, THEN spec, THEN mp, OF r, THEN mp, OF g]
  note t2 = C9_no_position_bone[of "body_armature scenario_hash" rig_armature empty_scene,
      THEN conjunct2, THEN spec, THEN spec, THEN spec, THEN spec, THEN mp, OF s,
      THEN mp, OF m, THEN mp, OF n]
  from t1 t2 s nm show ?thesis by (simp add: empty_scene_def)
qed


end
